theory Spec2Isabelle
  imports Complex_Main "HOL-Library.Word" "HOL-Library.Multiset"
begin

unbundle bit_operations_syntax

section \<open>Data model of the org-chart contracts\<close>

text \<open>
  The development embeds the Solidity contracts \<^verbatim>\<open>MultiSignable\<close>, \<^verbatim>\<open>OrgChart\<close>,
  \<^verbatim>\<open>BitVectorOrgChart\<close> and \<^verbatim>\<open>DynamicBitVectorOrgChart\<close>. Solidity's \<^verbatim>\<open>uint256\<close> and
  \<^verbatim>\<open>bytes32\<close> are 256-bit words, \<^verbatim>\<open>uint8\<close> is an 8-bit word and \<^verbatim>\<open>address\<close> a 160-bit
  word. Storage mappings are total functions (an unwritten slot reads as zero).
  A \<^verbatim>\<open>require\<close> that fails and a checked-arithmetic or array-bounds panic (the contracts
  are compiled with Solidity 0.8) are error values; a reverted call leaves the caller
  with the state it had. Events are not part of the state and are left out.
\<close>

type_synonym uint256 = "256 word"
type_synonym bytes32 = "256 word"
type_synonym uint8 = "8 word"
type_synonym address = "160 word"
type_synonym bytes = "8 word list"

datatype error =
    UnknownRole
  | InvalidRule
  | InvalidAdminRule
  | StaleBaseBlock
  | TooManySigners
  | InvalidArguments
  | UnorderedSigners
  | MissingSelfSign
  | UnexpectedSelfSign
  | InvalidAssignment
  | PermissionDenied
  | NotEnoughSigners
  | CycleDetected
  | RoleIdTaken
  | RoleFlagTaken
  | MalformedRoleFlag
  | MalformedRoleId
  | SeniorsMissing
  | JuniorsMissing
  | TooManyRules
  | SelfSignNotAllowed
  | Panic

record Signature =
  sig_v :: uint8
  sig_r :: bytes32
  sig_s :: bytes32

record SignedApproval =
  sig :: "Signature list"
  atoms :: "bytes32 list"
  assignment :: "uint8 list"
  selfSignRequired :: bool
  baseBlockHash :: bytes32

record RoleDef =
  roleId :: bytes32
  roleFlag :: uint256
  seniorFlags :: uint256
  juniorFlags :: uint256
  ruleHashes :: "bytes32 list"

text \<open>
  The primitives of the execution environment that the contracts call but do not
  define: the hash function, signature recovery and the block context. They are
  parameters of the model.
\<close>

record env =
  keccak256 :: "bytes \<Rightarrow> bytes32"
  ecrecover :: "bytes32 \<Rightarrow> uint8 \<Rightarrow> bytes32 \<Rightarrow> bytes32 \<Rightarrow> address"
  blockNumber :: uint256
  blockhash :: "uint256 \<Rightarrow> bytes32"

text \<open>The storage of \<^verbatim>\<open>DynamicBitVectorOrgChart\<close> with the storage it inherits.\<close>

record state =
  DOMAIN_SEPARATOR :: bytes32
  roleId2Flag :: "bytes32 \<Rightarrow> uint256"
  roleFlag2Mask :: "uint256 \<Rightarrow> uint256"
  user2Roles :: "address \<Rightarrow> uint256"
  ruleHashToRoleFlags :: "bytes32 \<Rightarrow> uint256"
  roleIdToNOAssignments :: "bytes32 \<Rightarrow> uint256"
  activeRoleFlags :: uint256
  roleIdx2Flag :: "uint8 \<Rightarrow> uint256"
  roleFlag2JuniorMask :: "uint256 \<Rightarrow> uint256"
  numOfActiveRoles :: uint8
  freeRoleFlags :: uint256

section \<open>Constants\<close>

definition LOOK_BACK_LENGTH :: nat where
  "LOOK_BACK_LENGTH = 3"

definition MAX_NUM_SIGNERS :: uint256 where
  "MAX_NUM_SIGNERS = 100"

definition MAX_NUM_RULES :: nat where
  "MAX_NUM_RULES = 10"

definition USER_MGT_REQ_HASH :: bytes32 where
  "USER_MGT_REQ_HASH = 0x4188b8d190b775104aa586eb6c5d6b815d12bb4e103b72d0d4937b62c85c778e"

definition RULE_HASH :: bytes32 where
  "RULE_HASH = 0x64bddff132fc1c7cb4776ef381143d78d0f2f6873b824fa04d6c83665ba25c38"

definition GRANT_HASH :: bytes32 where
  "GRANT_HASH = 0xa72fd109f1975359ff67bd5ebe67fb335d4d285dc5067f5b17f0aaa21f3d5084"

definition REVOKE_HASH :: bytes32 where
  "REVOKE_HASH = 0x9e10ea5887e56efeb96d4464ee7be8e8f408f1a889563a625d293d9d970cc73f"

definition ADD_ROLE_REQ_HASH :: bytes32 where
  "ADD_ROLE_REQ_HASH = 0xb297726e9ba5e58dd2bdbcd29ed10ec45e1fba4092200e6f6574c595546e8a35"

definition REMOVE_ROLE_REQ_HASH :: bytes32 where
  "REMOVE_ROLE_REQ_HASH = 0xf3c1118b8decb364780535ddd1aec07c063af923a883cd0d003f1afbd5a4d20f"

definition ADMIN_HASH :: bytes32 where
  "ADMIN_HASH = 0xf23ec0bb4210edd5cba85afd05127efcd2fc6a781bfed49188da1081670b22d8"

definition ATOM_FLAG_STRICT :: bytes32 where
  "ATOM_FLAG_STRICT = push_bit 248 1"

definition ATOM_FLAG_REL_QTY :: bytes32 where
  "ATOM_FLAG_REL_QTY = push_bit 248 2"

section \<open>ABI encoding and hashing\<close>

text \<open>
  \<^verbatim>\<open>abi.encode\<close> of static 32-byte values is the concatenation of their big-endian
  bytes; a dynamic \<^verbatim>\<open>bytes32[]\<close> is encoded as offset, length and elements.
\<close>

definition bytes32_be :: "uint256 \<Rightarrow> bytes" where
  "bytes32_be w = map (\<lambda>i. ucast (drop_bit (8 * (31 - i)) w)) [0..<32]"

definition abi_encode :: "uint256 list \<Rightarrow> bytes" where
  "abi_encode ws = concat (map bytes32_be ws)"

definition abi_encode_array :: "bytes32 list \<Rightarrow> bytes" where
  "abi_encode_array xs = abi_encode (32 # of_nat (length xs) # xs)"

definition abi_bool :: "bool \<Rightarrow> uint256" where
  "abi_bool b = (if b then 1 else 0)"

definition computeRuleHash :: "env \<Rightarrow> SignedApproval \<Rightarrow> bytes32 \<Rightarrow> bytes32" where
  "computeRuleHash env approval action =
     (let atomHash = keccak256 env (abi_encode_array (atoms approval))
      in keccak256 env
           (abi_encode [RULE_HASH, action, abi_bool (selfSignRequired approval), atomHash]))"

definition wrapAsEthSignedMessage :: "env \<Rightarrow> state \<Rightarrow> bytes32 \<Rightarrow> bytes32" where
  "wrapAsEthSignedMessage env st txHash =
     (let requestHash =
            keccak256 env ([0x19, 0x01] @ bytes32_be (DOMAIN_SEPARATOR st) @ bytes32_be txHash)
      in keccak256 env
           (0x19 # map of_char ''Ethereum Signed Message:'' @ [0x0a] @ map of_char ''32''
              @ bytes32_be requestHash))"

definition computeUserManagementReqHash ::
  "env \<Rightarrow> state \<Rightarrow> address \<Rightarrow> bytes32 \<Rightarrow> bytes32 \<Rightarrow> bytes32 \<Rightarrow> bytes32" where
  "computeUserManagementReqHash env st nominee action rid bbh =
     wrapAsEthSignedMessage env st
       (keccak256 env (abi_encode [USER_MGT_REQ_HASH, ucast nominee, action, rid, bbh]))"

definition computeAddRoleReqHash :: "env \<Rightarrow> state \<Rightarrow> RoleDef \<Rightarrow> bytes32 \<Rightarrow> bytes32" where
  "computeAddRoleReqHash env st roleDef bbh =
     wrapAsEthSignedMessage env st
       (keccak256 env
          (abi_encode [ADD_ROLE_REQ_HASH, roleId roleDef, roleFlag roleDef,
                       seniorFlags roleDef, juniorFlags roleDef,
                       keccak256 env (abi_encode_array (ruleHashes roleDef)), bbh]))"

definition computeRemoveRoleReqHash :: "env \<Rightarrow> state \<Rightarrow> bytes32 \<Rightarrow> bytes32 \<Rightarrow> bytes32" where
  "computeRemoveRoleReqHash env st rid bbh =
     wrapAsEthSignedMessage env st
       (keccak256 env (abi_encode [REMOVE_ROLE_REQ_HASH, rid, bbh]))"

section \<open>The rule hash of the compiler\<close>

text \<open>
  The compiler registers a rule in the generated contract under the hash computed by
  \<^verbatim>\<open>computeRuleHash\<close> of \<^verbatim>\<open>AbstractOrgChartCompiler\<close>. The rule definition carries the
  atoms of the rule body, the type of the rule (one of the strings \<^verbatim>\<open>revoke\<close>, \<^verbatim>\<open>grant\<close>
  and \<^verbatim>\<open>admin\<close>) and the two self-sign flags. \<^verbatim>\<open>getNormEncodedRuleBody\<close> encodes every atom
  as a 32-byte word with \<^verbatim>\<open>encodeRuleAtom\<close> of the analysis, here a parameter, and sorts
  the words with a comparator that orders them by numeric value. The nested hash is the
  hash of the ABI encoding of the rule structure, whose second field is the hash of the
  lower-cased type string and whose last field is the hash of the encoded array of the
  sorted atoms. The fields of the record carry the prefix \<open>rule_\<close>; the lower-casing is
  the one of the ASCII letters.
\<close>

record 'a RuleDef =
  rule_required :: "'a list"
  rule_type :: string
  rule_selfSignable :: bool
  rule_selfSignRequired :: bool

definition toLowerCase :: "string \<Rightarrow> string" where
  "toLowerCase str =
     map (\<lambda>c. let n = (of_char c :: nat)
               in if 65 \<le> n \<and> n \<le> 90 then char_of (n + 32) else c) str"

definition getNormEncodedRuleBody :: "('a \<Rightarrow> bytes32) \<Rightarrow> 'a RuleDef \<Rightarrow> bytes32 list" where
  "getNormEncodedRuleBody encodeRuleAtom ruleDef =
     sort (map encodeRuleAtom (rule_required ruleDef))"

definition compiler_computeRuleHash :: "env \<Rightarrow> ('a \<Rightarrow> bytes32) \<Rightarrow> 'a RuleDef \<Rightarrow> bytes32" where
  "compiler_computeRuleHash env encodeRuleAtom ruleDef =
     (let atms = getNormEncodedRuleBody encodeRuleAtom ruleDef
      in keccak256 env
           (abi_encode [RULE_HASH,
                        keccak256 env (map of_char (toLowerCase (rule_type ruleDef))),
                        abi_bool (rule_selfSignRequired ruleDef),
                        keccak256 env (abi_encode_array atms)]))"

section \<open>MultiSignable and OrgChart\<close>

text \<open>
  \<^verbatim>\<open>getSigners\<close>: the loop over the signatures, with the last recovered address, the
  self-sign flag and the signers recovered so far as loop state.
\<close>

fun getSigners_loop ::
  "env \<Rightarrow> Signature list \<Rightarrow> address \<Rightarrow> bytes32 \<Rightarrow> address \<Rightarrow> bool \<Rightarrow> address list
     \<Rightarrow> error + (bool \<times> address list)" where
  "getSigners_loop env [] nominee targetHash lastAdd selfSigned signers =
     Inr (selfSigned, signers)"
| "getSigners_loop env (sg # rest) nominee targetHash lastAdd selfSigned signers =
     (let recovered = ecrecover env targetHash (sig_v sg) (sig_r sg) (sig_s sg)
      in if \<not> recovered > lastAdd then Inl UnorderedSigners
         else getSigners_loop env rest nominee targetHash recovered
                (selfSigned \<or> recovered = nominee) (signers @ [recovered]))"

definition getSigners ::
  "env \<Rightarrow> Signature list \<Rightarrow> address \<Rightarrow> bytes32 \<Rightarrow> error + (bool \<times> address list)" where
  "getSigners env sigs nominee targetHash =
     getSigners_loop env sigs nominee targetHash 0 False []"

text \<open>
  \<^verbatim>\<open>_isValidBaseBlock\<close>: \<^verbatim>\<open>i\<close> runs from 1 to \<^verbatim>\<open>LOOK_BACK_LENGTH\<close>; the checked
  subtraction \<^verbatim>\<open>block.number - i\<close> panics below zero.
\<close>

primrec isValidBaseBlock_loop :: "env \<Rightarrow> bytes32 \<Rightarrow> nat list \<Rightarrow> error + bool" where
  "isValidBaseBlock_loop env bbh [] = Inr False"
| "isValidBaseBlock_loop env bbh (i # rest) =
     (if blockNumber env < of_nat i then Inl Panic
      else if blockhash env (blockNumber env - of_nat i) = bbh then Inr True
      else isValidBaseBlock_loop env bbh rest)"

definition isValidBaseBlock :: "env \<Rightarrow> bytes32 \<Rightarrow> error + bool" where
  "isValidBaseBlock env bbh = isValidBaseBlock_loop env bbh [1..<Suc LOOK_BACK_LENGTH]"

text \<open>
  The modifier \<^verbatim>\<open>onlyValidApprovals\<close>. Its third \<^verbatim>\<open>require\<close> compares
  \<^verbatim>\<open>approval.sig.length\<close> with itself, as the source does.
\<close>

definition onlyValidApprovals :: "env \<Rightarrow> SignedApproval \<Rightarrow> error + unit" where
  "onlyValidApprovals env approval =
     (case isValidBaseBlock env (baseBlockHash approval) of
        Inl e \<Rightarrow> Inl e
      | Inr valid \<Rightarrow>
          if \<not> valid then Inl StaleBaseBlock
          else if \<not> length (sig approval) \<le> unat MAX_NUM_SIGNERS then Inl TooManySigners
          else if \<not> length (sig approval) = length (sig approval) then Inl InvalidArguments
          else Inr ())"

section \<open>BitVectorOrgChart\<close>

text \<open>
  \<^verbatim>\<open>_getPure\<close>: the binary search for a set bit. The local \<^verbatim>\<open>mask\<close> is written
  \<open>msk\<close>. Shifts by a 256-bit amount are \<open>push_bit\<close> and \<open>drop_bit\<close> by its value.
\<close>

function getPure_loop :: "uint256 \<Rightarrow> uint256 \<Rightarrow> uint256 \<Rightarrow> uint256" where
  "getPure_loop msk piv shift =
     (if shift > 0 then
        (if piv AND msk \<noteq> 0 then piv
         else let shift' = drop_bit 1 shift;
                  piv' = (if piv > msk then drop_bit (unat shift') piv
                          else push_bit (unat shift') piv)
              in getPure_loop msk piv' shift')
      else 0)"
  by pat_completeness auto
termination
proof (relation "measure (\<lambda>(msk, piv, shift). unat shift)")
  show "wf (measure (\<lambda>(msk, piv, shift). unat shift))" by simp
next
  fix msk piv shift :: uint256 and x xa
  assume "0 < shift" "x = drop_bit 1 shift"
  then have "0 < unat shift" by (simp add: unat_gt_0 word_greater_zero_iff)
  then have "unat shift div 2 < unat shift" by simp
  then show "((msk, xa, x), msk, piv, shift) \<in> measure (\<lambda>(msk, piv, shift). unat shift)"
    using \<open>x = drop_bit 1 shift\<close> by (simp add: drop_bit_eq_div unat_div)
qed

declare getPure_loop.simps [simp del]

definition getPure :: "uint256 \<Rightarrow> uint256" where
  "getPure msk =
     (if msk = 0 then 0
      else if msk AND (msk - 1) = 0 then msk
      else getPure_loop msk (push_bit 128 1) 128)"

text \<open>
  \<^verbatim>\<open>_buildStructureMask\<close>: the while loop, reading the storage mapping
  \<^verbatim>\<open>roleFlag2Mask\<close> (the argument \<open>r2m\<close>). Its termination is proved below, from the
  correctness of \<^verbatim>\<open>_getPure\<close>.
\<close>

function buildStructureMask_loop ::
  "(uint256 \<Rightarrow> uint256) \<Rightarrow> uint256 \<Rightarrow> uint256 \<Rightarrow> uint256" where
  "buildStructureMask_loop r2m roleFlags msk =
     (if roleFlags \<noteq> 0 then
        let role = getPure roleFlags
        in buildStructureMask_loop r2m (roleFlags XOR role) (msk OR r2m role)
      else msk)"
  by pat_completeness auto

definition buildStructureMask :: "(uint256 \<Rightarrow> uint256) \<Rightarrow> uint256 \<Rightarrow> uint256" where
  "buildStructureMask r2m roleFlags = buildStructureMask_loop r2m roleFlags 0"

definition hasRole :: "state \<Rightarrow> address \<Rightarrow> bytes32 \<Rightarrow> error + bool" where
  "hasRole st user rid =
     (let requiredRoleFlag = roleId2Flag st rid;
          userRoleFlags = user2Roles st user AND activeRoleFlags st
      in if requiredRoleFlag = 0 then Inl UnknownRole
         else if userRoleFlags AND requiredRoleFlag = requiredRoleFlag then Inr True
         else if userRoleFlags = 0 then Inr False
         else let userRoleMask = buildStructureMask (roleFlag2Mask st) userRoleFlags
              in Inr (userRoleMask AND requiredRoleFlag = requiredRoleFlag))"

definition strictlyHasRole :: "state \<Rightarrow> address \<Rightarrow> bytes32 \<Rightarrow> error + bool" where
  "strictlyHasRole st user rid =
     (let requiredRoleFlag = roleId2Flag st rid;
          userRoleFlags = user2Roles st user AND activeRoleFlags st
      in if requiredRoleFlag = 0 then Inl UnknownRole
         else Inr (userRoleFlags AND requiredRoleFlag = requiredRoleFlag))"

text \<open>
  \<^verbatim>\<open>_getAbsNumberOfRequiredSigners\<close>: the checked multiplication \<^verbatim>\<open>base * perc\<close> panics
  on overflow.
\<close>

definition getAbsNumberOfRequiredSigners :: "uint256 \<Rightarrow> uint8 \<Rightarrow> error + uint8" where
  "getAbsNumberOfRequiredSigners base perc =
     (if \<not> unat base * unat perc < 2 ^ 256 then Inl Panic
      else let req = base * ucast perc;
               req = (req div 100) + (if req mod 100 > 0 then 1 else 0);
               req = (if req > MAX_NUM_SIGNERS then MAX_NUM_SIGNERS
                      else if req < 1 then 1 else req)
           in Inr (ucast req))"

text \<open>
  \<^verbatim>\<open>_requireRuleFulfillment\<close>, first loop: \<open>i\<close> is the \<^verbatim>\<open>uint8\<close> loop counter, the list
  argument is the part of \<^verbatim>\<open>assignment\<close> not yet visited and \<open>cnt\<close> the counter array.
  Reading \<^verbatim>\<open>signers[i]\<close> beyond the array panics, as do the checked increments of a
  counter and of \<open>i\<close> beyond 255. A \<^verbatim>\<open>continue\<close> still increments \<open>i\<close>.
\<close>

definition roleIdMask :: bytes32 where
  "roleIdMask = NOT (push_bit 240 0xffff)"

definition checkSigner ::
  "state \<Rightarrow> address \<Rightarrow> bytes32 list \<Rightarrow> uint8 \<Rightarrow> uint8 list \<Rightarrow> error + uint8 list" where
  "checkSigner st signer atms a cnt =
     (if \<not> length atms > unat a then Inl InvalidAssignment
      else let atom = atms ! unat a
           in case (if atom AND ATOM_FLAG_STRICT = ATOM_FLAG_STRICT
                    then strictlyHasRole st signer (atom AND roleIdMask)
                    else hasRole st signer (atom AND roleIdMask)) of
                Inl e \<Rightarrow> Inl e
              | Inr ok \<Rightarrow>
                  if \<not> ok then Inl PermissionDenied
                  else if cnt ! unat a = 255 then Inl Panic
                  else Inr (cnt[unat a := cnt ! unat a + 1]))"

fun countSigners ::
  "state \<Rightarrow> address \<Rightarrow> address list \<Rightarrow> bytes32 list \<Rightarrow> uint8 list \<Rightarrow> nat \<Rightarrow> uint8 list
     \<Rightarrow> error + uint8 list" where
  "countSigners st nominee signers atms [] i cnt = Inr cnt"
| "countSigners st nominee signers atms (a # rest) i cnt =
     (if \<not> i < length signers then Inl Panic
      else case (if signers ! i = nominee then Inr cnt
                 else checkSigner st (signers ! i) atms a cnt) of
             Inl e \<Rightarrow> Inl e
           | Inr cnt' \<Rightarrow>
               if i = 255 then Inl Panic
               else countSigners st nominee signers atms rest (Suc i) cnt')"

text \<open>
  Second loop: the quota of every atom. \<open>i\<close> is again a \<^verbatim>\<open>uint8\<close> counter; the list
  argument is the part of \<^verbatim>\<open>atoms\<close> not yet visited.
\<close>

fun checkQuotas :: "state \<Rightarrow> bytes32 list \<Rightarrow> nat \<Rightarrow> uint8 list \<Rightarrow> error + unit" where
  "checkQuotas st [] i cnt = Inr ()"
| "checkQuotas st (atom # rest) i cnt =
     (let qty = (ucast (drop_bit 240 atom AND 0xff) :: uint8);
          role = drop_bit 16 (push_bit 16 atom)
      in case (if atom AND ATOM_FLAG_REL_QTY = ATOM_FLAG_REL_QTY
               then getAbsNumberOfRequiredSigners (roleIdToNOAssignments st role) qty
               else Inr qty) of
           Inl e \<Rightarrow> Inl e
         | Inr qty' \<Rightarrow>
             if \<not> cnt ! i \<ge> qty' then Inl NotEnoughSigners
             else if i = 255 then Inl Panic
             else checkQuotas st rest (Suc i) cnt)"

definition requireRuleFulfillment ::
  "state \<Rightarrow> address \<Rightarrow> address list \<Rightarrow> bytes32 list \<Rightarrow> uint8 list \<Rightarrow> error + unit" where
  "requireRuleFulfillment st nominee signers atms asg =
     (case countSigners st nominee signers atms asg 0 (replicate (length atms) 0) of
        Inl e \<Rightarrow> Inl e
      | Inr cnt \<Rightarrow> checkQuotas st atms 0 cnt)"

definition requireValidRequest ::
  "env \<Rightarrow> state \<Rightarrow> SignedApproval \<Rightarrow> bytes32 \<Rightarrow> address \<Rightarrow> bytes32 \<Rightarrow> error + unit" where
  "requireValidRequest env st approval action nominee rid =
     (let flag = roleId2Flag st rid
      in if flag = 0 then Inl UnknownRole
         else let ruleHash = computeRuleHash env approval action;
                  validRule = (ruleHashToRoleFlags st ruleHash AND flag = flag)
              in if \<not> validRule then Inl InvalidRule
                 else case getSigners env (sig approval) nominee
                             (computeUserManagementReqHash env st nominee action rid
                                (baseBlockHash approval)) of
                        Inl e \<Rightarrow> Inl e
                      | Inr (selfSigned, signers) \<Rightarrow>
                          if \<not> selfSigned = selfSignRequired approval
                          then Inl (if selfSignRequired approval then MissingSelfSign
                                    else UnexpectedSelfSign)
                          else requireRuleFulfillment st nominee signers
                                 (atoms approval) (assignment approval))"

text \<open>
  \<^verbatim>\<open>grantRole\<close> and \<^verbatim>\<open>revokeRole\<close>, both under the modifier \<^verbatim>\<open>onlyValidApprovals\<close>. The
  assignment counter is incremented and decremented with checked arithmetic.
\<close>

definition grantRole ::
  "env \<Rightarrow> state \<Rightarrow> SignedApproval \<Rightarrow> address \<Rightarrow> bytes32 \<Rightarrow> error + state" where
  "grantRole env st approval nominee rid =
     (case onlyValidApprovals env approval of
        Inl e \<Rightarrow> Inl e
      | Inr _ \<Rightarrow>
          (case requireValidRequest env st approval GRANT_HASH nominee rid of
             Inl e \<Rightarrow> Inl e
           | Inr _ \<Rightarrow>
               let flag = roleId2Flag st rid
               in if user2Roles st nominee AND flag = 0 then
                    if roleIdToNOAssignments st rid = - 1 then Inl Panic
                    else Inr (st\<lparr>user2Roles := (user2Roles st)
                                     (nominee := user2Roles st nominee OR flag),
                                 roleIdToNOAssignments := (roleIdToNOAssignments st)
                                     (rid := roleIdToNOAssignments st rid + 1)\<rparr>)
                  else Inr st))"

definition revokeRole ::
  "env \<Rightarrow> state \<Rightarrow> SignedApproval \<Rightarrow> address \<Rightarrow> bytes32 \<Rightarrow> error + state" where
  "revokeRole env st approval nominee rid =
     (case onlyValidApprovals env approval of
        Inl e \<Rightarrow> Inl e
      | Inr _ \<Rightarrow>
          (case requireValidRequest env st approval REVOKE_HASH nominee rid of
             Inl e \<Rightarrow> Inl e
           | Inr _ \<Rightarrow>
               let flag = roleId2Flag st rid
               in if user2Roles st nominee AND flag = flag then
                    if roleIdToNOAssignments st rid = 0 then Inl Panic
                    else Inr (st\<lparr>user2Roles := (user2Roles st)
                                     (nominee := user2Roles st nominee AND NOT flag),
                                 roleIdToNOAssignments := (roleIdToNOAssignments st)
                                     (rid := roleIdToNOAssignments st rid - 1)\<rparr>)
                  else Inr st))"

section \<open>DynamicBitVectorOrgChart\<close>

text \<open>
  \<^verbatim>\<open>_requireValidRoleDef\<close>. The checked subtraction \<^verbatim>\<open>roleFlag - 1\<close> panics for a zero
  flag, before the \<^verbatim>\<open>require\<close> it is part of is decided.
\<close>

definition requireValidRoleDef :: "state \<Rightarrow> RoleDef \<Rightarrow> error + unit" where
  "requireValidRoleDef st roleDef =
     (if roleFlag roleDef = 0 then Inl Panic
      else if \<not> roleFlag roleDef AND (roleFlag roleDef - 1) = 0 then Inl MalformedRoleFlag
      else if \<not> roleFlag roleDef AND freeRoleFlags st \<noteq> 0 then Inl RoleFlagTaken
      else if \<not> drop_bit 16 (push_bit 16 (roleId roleDef)) = roleId roleDef
        then Inl MalformedRoleId
      else if \<not> roleId2Flag st (roleId roleDef) = 0 then Inl RoleIdTaken
      else if \<not> seniorFlags roleDef AND NOT (freeRoleFlags st) = seniorFlags roleDef
        then Inl SeniorsMissing
      else if \<not> juniorFlags roleDef AND NOT (freeRoleFlags st) = juniorFlags roleDef
        then Inl JuniorsMissing
      else if \<not> length (ruleHashes roleDef) < MAX_NUM_RULES then Inl TooManyRules
      else Inr ())"

definition requireValidAdminRequest ::
  "env \<Rightarrow> state \<Rightarrow> SignedApproval \<Rightarrow> bytes32 \<Rightarrow> error + unit" where
  "requireValidAdminRequest env st approval targetHash =
     (let ruleHash = computeRuleHash env approval ADMIN_HASH
      in if \<not> ruleHashToRoleFlags st ruleHash = - 1 then Inl InvalidAdminRule
         else case getSigners env (sig approval) 0 targetHash of
                Inl e \<Rightarrow> Inl e
              | Inr (dummy, signers) \<Rightarrow>
                  requireRuleFulfillment st 0 signers (atoms approval) (assignment approval))"

definition requireValidAddRoleRequest ::
  "env \<Rightarrow> state \<Rightarrow> SignedApproval \<Rightarrow> RoleDef \<Rightarrow> error + unit" where
  "requireValidAddRoleRequest env st approval roleDef =
     requireValidAdminRequest env st approval
       (computeAddRoleReqHash env st roleDef (baseBlockHash approval))"

definition requireValidRemoveRequest ::
  "env \<Rightarrow> state \<Rightarrow> SignedApproval \<Rightarrow> bytes32 \<Rightarrow> error + unit" where
  "requireValidRemoveRequest env st approval rid =
     requireValidAdminRequest env st approval
       (computeRemoveRoleReqHash env st rid (baseBlockHash approval))"

text \<open>
  \<^verbatim>\<open>_shiftRightRoleIdx\<close>: \<open>i\<close> runs from \<^verbatim>\<open>numOfActiveRoles\<close> down to \<open>from + 1\<close>; the
  checked increment of the \<^verbatim>\<open>uint8\<close> counter panics at 255.
\<close>

definition shiftRightRoleIdx :: "state \<Rightarrow> uint8 \<Rightarrow> error + state" where
  "shiftRightRoleIdx st from =
     (let idx = fold (\<lambda>i f. f(of_nat i := f (of_nat i - 1)))
                  (rev [Suc (unat from)..<Suc (unat (numOfActiveRoles st))]) (roleIdx2Flag st)
      in if numOfActiveRoles st = 255 then Inl Panic
         else Inr (st\<lparr>roleIdx2Flag := idx, numOfActiveRoles := numOfActiveRoles st + 1\<rparr>))"

text \<open>
  \<^verbatim>\<open>_shiftLeftRoleIdx\<close>: the loop bound \<^verbatim>\<open>numOfActiveRoles - 1\<close> is a checked
  subtraction and panics when no role is active.
\<close>

definition shiftLeftRoleIdx :: "state \<Rightarrow> uint8 \<Rightarrow> error + state" where
  "shiftLeftRoleIdx st to =
     (if numOfActiveRoles st = 0 then Inl Panic
      else let idx = fold (\<lambda>i f. f(of_nat i := f (of_nat i + 1)))
                       [unat to..<unat (numOfActiveRoles st) - 1] (roleIdx2Flag st)
           in Inr (st\<lparr>roleIdx2Flag := idx(numOfActiveRoles st - 1 := 0),
                       numOfActiveRoles := numOfActiveRoles st - 1\<rparr>))"

text \<open>
  One iteration of the loop of \<^verbatim>\<open>addRole\<close> over the role array; the loop state is the
  storage and the local \<^verbatim>\<open>firstParent\<close>. The local \<^verbatim>\<open>roleFlag\<close> is written \<open>flag\<close>.
\<close>

definition addRole_iter :: "RoleDef \<Rightarrow> uint256 \<Rightarrow> nat \<Rightarrow> state \<times> uint8 \<Rightarrow> state \<times> uint8" where
  "addRole_iter roleDef newRoleMask i acc =
     (case acc of (st, firstParent) \<Rightarrow>
        let flag = roleIdx2Flag st (of_nat i);
            roleMask = roleFlag2Mask st flag;
            direct = (seniorFlags roleDef AND flag \<noteq> 0);
            st1 = (if direct
                   then st\<lparr>roleFlag2JuniorMask := (roleFlag2JuniorMask st)
                              (flag := roleFlag2JuniorMask st flag OR roleFlag roleDef)\<rparr>
                   else st);
            firstParent1 = (if direct
                            then (if of_nat i \<le> firstParent then of_nat i else firstParent)
                            else firstParent);
            st2 = (if roleMask AND seniorFlags roleDef \<noteq> 0
                   then st1\<lparr>roleFlag2Mask := (roleFlag2Mask st1)
                               (flag := roleFlag2Mask st1 flag OR newRoleMask)\<rparr>
                   else st1)
        in (st2, firstParent1))"

definition addRole :: "env \<Rightarrow> state \<Rightarrow> SignedApproval \<Rightarrow> RoleDef \<Rightarrow> error + state" where
  "addRole env st approval roleDef =
     (if selfSignRequired approval then Inl SelfSignNotAllowed
      else case requireValidRoleDef st roleDef of
        Inl e \<Rightarrow> Inl e
      | Inr _ \<Rightarrow>
          (case requireValidAddRoleRequest env st approval roleDef of
             Inl e \<Rightarrow> Inl e
           | Inr _ \<Rightarrow>
               let newRoleMask =
                     buildStructureMask (roleFlag2Mask st) (juniorFlags roleDef)
                       OR roleFlag roleDef
               in if \<not> newRoleMask AND seniorFlags roleDef = 0 then Inl CycleDetected
                  else case fold (addRole_iter roleDef newRoleMask)
                              [0..<unat (numOfActiveRoles st)] (st, numOfActiveRoles st) of
                    (st1, firstParent) \<Rightarrow>
                      (case shiftRightRoleIdx st1 firstParent of
                         Inl e \<Rightarrow> Inl e
                       | Inr st2 \<Rightarrow>
                           let st3 = st2\<lparr>
                                 roleIdx2Flag := (roleIdx2Flag st2)
                                   (firstParent := roleFlag roleDef),
                                 roleId2Flag := (roleId2Flag st2)
                                   (roleId roleDef := roleFlag roleDef),
                                 roleFlag2JuniorMask := (roleFlag2JuniorMask st2)
                                   (roleFlag roleDef := juniorFlags roleDef),
                                 roleFlag2Mask := (roleFlag2Mask st2)
                                   (roleFlag roleDef := newRoleMask)\<rparr>;
                               st4 = fold (\<lambda>h s. s\<lparr>ruleHashToRoleFlags :=
                                             (ruleHashToRoleFlags s)
                                               (h := ruleHashToRoleFlags s h
                                                       OR roleFlag roleDef)\<rparr>)
                                       (ruleHashes roleDef) st3
                           in Inr (st4\<lparr>freeRoleFlags :=
                                          freeRoleFlags st4 XOR roleFlag roleDef,
                                        activeRoleFlags :=
                                          activeRoleFlags st4 OR roleFlag roleDef\<rparr>))))"

text \<open>
  One iteration of the loop of \<^verbatim>\<open>removeRole\<close>; the loop state is the storage and the
  local \<^verbatim>\<open>roleIdx\<close> (zero until the role is found).
\<close>

definition removeRole_iter :: "uint256 \<Rightarrow> nat \<Rightarrow> state \<times> uint8 \<Rightarrow> state \<times> uint8" where
  "removeRole_iter delRoleFlag i acc =
     (case acc of (st, roleIdx) \<Rightarrow>
        let flag = roleIdx2Flag st (of_nat i)
        in if flag = delRoleFlag then (st, of_nat i)
           else
             let roleMask = roleFlag2Mask st flag;
                 juniorMask = roleFlag2JuniorMask st flag;
                 direct = (juniorMask AND delRoleFlag \<noteq> 0);
                 juniorMask1 = (if direct then juniorMask XOR delRoleFlag else juniorMask);
                 st1 = (if direct
                        then st\<lparr>roleFlag2JuniorMask := (roleFlag2JuniorMask st)
                                   (flag := juniorMask1)\<rparr>
                        else st);
                 st2 = (if roleMask AND delRoleFlag \<noteq> 0
                        then st1\<lparr>roleFlag2Mask := (roleFlag2Mask st1)
                                    (flag := buildStructureMask (roleFlag2Mask st1) juniorMask1
                                               OR flag)\<rparr>
                        else st1)
             in (st2, roleIdx))"

definition removeRole :: "env \<Rightarrow> state \<Rightarrow> SignedApproval \<Rightarrow> bytes32 \<Rightarrow> error + state" where
  "removeRole env st approval rid =
     (if selfSignRequired approval then Inl SelfSignNotAllowed
      else let delRoleFlag = roleId2Flag st rid
           in if delRoleFlag = 0 then Inl UnknownRole
              else case requireValidRemoveRequest env st approval rid of
                Inl e \<Rightarrow> Inl e
              | Inr _ \<Rightarrow>
                  (case fold (removeRole_iter delRoleFlag)
                          [0..<unat (numOfActiveRoles st)] (st, 0) of
                     (st1, roleIdx) \<Rightarrow>
                       (case shiftLeftRoleIdx st1 roleIdx of
                          Inl e \<Rightarrow> Inl e
                        | Inr st2 \<Rightarrow>
                            Inr (st2\<lparr>
                              roleId2Flag := (roleId2Flag st2)(rid := 0),
                              roleFlag2Mask := (roleFlag2Mask st2)(delRoleFlag := 0),
                              roleFlag2JuniorMask :=
                                (roleFlag2JuniorMask st2)(delRoleFlag := 0),
                              activeRoleFlags := activeRoleFlags st2 XOR delRoleFlag\<rparr>))))"

section \<open>Sequences of transactions\<close>

text \<open>
  A transaction is one call of the public interface in some block context. A call that
  reverts leaves the storage as it was.
\<close>

datatype call =
    GrantRole SignedApproval address bytes32
  | RevokeRole SignedApproval address bytes32
  | AddRole SignedApproval RoleDef
  | RemoveRole SignedApproval bytes32

fun execute :: "env \<Rightarrow> state \<Rightarrow> call \<Rightarrow> error + state" where
  "execute env st (GrantRole approval nominee rid) = grantRole env st approval nominee rid"
| "execute env st (RevokeRole approval nominee rid) = revokeRole env st approval nominee rid"
| "execute env st (AddRole approval roleDef) = addRole env st approval roleDef"
| "execute env st (RemoveRole approval rid) = removeRole env st approval rid"

definition transact :: "state \<Rightarrow> env \<times> call \<Rightarrow> state" where
  "transact st tx = (case execute (fst tx) st (snd tx) of Inl e \<Rightarrow> st | Inr st' \<Rightarrow> st')"

definition run :: "state \<Rightarrow> (env \<times> call) list \<Rightarrow> state" where
  "run st txs = foldl transact st txs"

section \<open>Properties named by the specification\<close>

text \<open>
  The role array is reverse-topological when every role found in the structure mask of
  another role (a direct or transitive junior) stands at a strictly lower index.
\<close>

definition reverseTopological :: "state \<Rightarrow> bool" where
  "reverseTopological st =
     (let n = unat (numOfActiveRoles st)
      in list_all (\<lambda>s. list_all (\<lambda>j.
           s \<noteq> j \<and> roleFlag2Mask st (roleIdx2Flag st (of_nat s)) AND roleIdx2Flag st (of_nat j)
                       = roleIdx2Flag st (of_nat j)
             \<longrightarrow> j < s) [0..<n]) [0..<n])"

text \<open>
  Mask consistency: the structure mask of every role in the role array is its own flag
  together with the structure masks stored for the bits of its direct-junior mask.
\<close>

definition maskConsistent :: "state \<Rightarrow> bool" where
  "maskConsistent st =
     list_all (\<lambda>i. let R = roleIdx2Flag st (of_nat i)
                   in roleFlag2Mask st R =
                        R OR fold (\<lambda>j acc. acc OR roleFlag2Mask st (2 ^ j))
                               (filter (bit (roleFlag2JuniorMask st R)) [0..<256]) 0)
       [0..<unat (numOfActiveRoles st)]"

text \<open>
  The flag bookkeeping of a deployed chart: active and free flags are disjoint, every
  registered role id maps into the active flags, and different role ids have disjoint
  flags.
\<close>

definition flags_wf :: "state \<Rightarrow> bool" where
  "flags_wf st \<longleftrightarrow>
     activeRoleFlags st AND freeRoleFlags st = 0
     \<and> (\<forall>rid. roleId2Flag st rid AND activeRoleFlags st = roleId2Flag st rid)
     \<and> (\<forall>rid rid'. rid \<noteq> rid' \<longrightarrow> roleId2Flag st rid AND roleId2Flag st rid' = 0)"

text \<open>The storage fields of the flag bookkeeping, for stating what a call leaves unchanged.\<close>

definition flag_fields :: "state \<Rightarrow> uint256 \<times> uint256 \<times> (bytes32 \<Rightarrow> uint256)" where
  "flag_fields st = (freeRoleFlags st, activeRoleFlags st, roleId2Flag st)"

text \<open>
  The hash function of the environment collides on two byte strings when they are
  different and have the same hash.
\<close>

definition collides :: "env \<Rightarrow> bytes \<Rightarrow> bytes \<Rightarrow> bool" where
  "collides env x y \<longleftrightarrow> x \<noteq> y \<and> keccak256 env x = keccak256 env y"

section \<open>Example environment and charts\<close>

text \<open>
  A concrete environment for running the contracts on examples. The hash and the
  signature recovery are stand-ins for the primitives of the platform: the stand-in hash
  reads the last 32 bytes of its input as a big-endian number, the stand-in recovery
  returns the \<open>r\<close> component of the signature as the signer. The current block is
  block 10 and block \<open>n\<close> has hash \<open>n + 1000\<close>.
\<close>

definition be_word :: "bytes \<Rightarrow> bytes32" where
  "be_word bs = foldl (\<lambda>acc b. push_bit 8 acc OR ucast b) 0 bs"

definition demo_keccak :: "bytes \<Rightarrow> bytes32" where
  "demo_keccak bs = be_word (drop (length bs - 32) bs)"

definition demo_env :: env where
  "demo_env = \<lparr>keccak256 = demo_keccak, ecrecover = (\<lambda>h v r s. ucast r),
                blockNumber = 10, blockhash = (\<lambda>n. n + 1000)\<rparr>"

text \<open>
  Two rule atoms: "one holder of role \<open>0xA\<close>" and "one holder of role \<open>0xB\<close>" (quantity
  1 in byte 30, no modifier flag, the role id in the low 30 bytes).
\<close>

definition demo_atom_A :: bytes32 where
  "demo_atom_A = 0x100000000000000000000000000000000000000000000000000000000000A"

definition demo_atom_B :: bytes32 where
  "demo_atom_B = 0x100000000000000000000000000000000000000000000000000000000000B"

text \<open>
  An admin approval signed by user \<open>0x51\<close> for the admin rule "one holder of role
  \<open>0xA\<close>". Its base block hash is the hash of no recent block.
\<close>

definition demo_approval :: SignedApproval where
  "demo_approval = \<lparr>sig = [\<lparr>sig_v = 27, sig_r = 0x51, sig_s = 0\<rparr>],
     atoms = [demo_atom_A],
     assignment = [0], selfSignRequired = False, baseBlockHash = 0\<rparr>"

definition demo_admin_rule :: bytes32 where
  "demo_admin_rule = computeRuleHash demo_env demo_approval ADMIN_HASH"

text \<open>
  The chart deployed for two unrelated roles \<open>A\<close> (id \<open>0xA\<close>, flag 1) and \<open>B\<close> (id \<open>0xB\<close>,
  flag 2) with that admin rule, user \<open>0x51\<close> holding \<open>A\<close>.
\<close>

definition demo_chart :: state where
  "demo_chart = \<lparr>
     DOMAIN_SEPARATOR = 0,
     roleId2Flag = (\<lambda>_. 0)(0xA := 1, 0xB := 2),
     roleFlag2Mask = (\<lambda>_. 0)(1 := 1, 2 := 2),
     user2Roles = (\<lambda>_. 0)(0x51 := 1),
     ruleHashToRoleFlags = (\<lambda>_. 0)(demo_admin_rule := - 1),
     roleIdToNOAssignments = (\<lambda>_. 0)(0xA := 1),
     activeRoleFlags = 3,
     roleIdx2Flag = (\<lambda>_. 0)(0 := 1, 1 := 2),
     roleFlag2JuniorMask = (\<lambda>_. 0),
     numOfActiveRoles = 2,
     freeRoleFlags = NOT 3\<rparr>"

text \<open>
  Role \<open>R\<close> (flag 4) is added between \<open>A\<close> and \<open>B\<close>: senior \<open>A\<close>, junior \<open>B\<close>. Role \<open>C\<close>
  (flag 8) is added below \<open>B\<close>. The charts \<open>demo_chart_R\<close> and \<open>demo_chart_RC\<close> are the
  storage after these additions, \<open>demo_chart_RC_removed\<close> the storage after \<open>C\<close> is
  removed again, and \<open>demo_chart_A\<close> the storage after \<open>B\<close> is removed from the deployed
  chart (each proved below).
\<close>

definition demo_role_R :: RoleDef where
  "demo_role_R = \<lparr>roleId = 0xC, roleFlag = 4, seniorFlags = 1, juniorFlags = 2, ruleHashes = []\<rparr>"

definition demo_role_C :: RoleDef where
  "demo_role_C = \<lparr>roleId = 0xD, roleFlag = 8, seniorFlags = 2, juniorFlags = 0, ruleHashes = []\<rparr>"

definition demo_chart_R :: state where
  "demo_chart_R = \<lparr>
     DOMAIN_SEPARATOR = 0,
     roleId2Flag = (\<lambda>_. 0)(0xA := 1, 0xB := 2, 0xC := 4),
     roleFlag2Mask = (\<lambda>_. 0)(2 := 2, 1 := 7, 4 := 6),
     user2Roles = (\<lambda>_. 0)(0x51 := 1),
     ruleHashToRoleFlags = (\<lambda>_. 0)(demo_admin_rule := - 1),
     roleIdToNOAssignments = (\<lambda>_. 0)(0xA := 1),
     activeRoleFlags = 7,
     roleIdx2Flag = (\<lambda>_. 0)(2 := 2, 1 := 1, 0 := 4),
     roleFlag2JuniorMask = (\<lambda>_. 0)(1 := 4, 4 := 2),
     numOfActiveRoles = 3,
     freeRoleFlags = NOT 7\<rparr>"

definition demo_chart_RC :: state where
  "demo_chart_RC = \<lparr>
     DOMAIN_SEPARATOR = 0,
     roleId2Flag = (\<lambda>_. 0)(0xA := 1, 0xB := 2, 0xC := 4, 0xD := 8),
     roleFlag2Mask = (\<lambda>_. 0)(4 := 14, 1 := 15, 2 := 10, 8 := 8),
     user2Roles = (\<lambda>_. 0)(0x51 := 1),
     ruleHashToRoleFlags = (\<lambda>_. 0)(demo_admin_rule := - 1),
     roleIdToNOAssignments = (\<lambda>_. 0)(0xA := 1),
     activeRoleFlags = 15,
     roleIdx2Flag = (\<lambda>_. 0)(1 := 1, 0 := 4, 3 := 2, 2 := 8),
     roleFlag2JuniorMask = (\<lambda>_. 0)(1 := 4, 4 := 2, 2 := 8, 8 := 0),
     numOfActiveRoles = 4,
     freeRoleFlags = NOT 15\<rparr>"

definition demo_chart_RC_removed :: state where
  "demo_chart_RC_removed = \<lparr>
     DOMAIN_SEPARATOR = 0,
     roleId2Flag = (\<lambda>_. 0)(0xA := 1, 0xB := 2, 0xC := 4, 0xD := 0),
     roleFlag2Mask = (\<lambda>_. 0)(4 := 14, 1 := 15, 2 := 2, 8 := 0),
     user2Roles = (\<lambda>_. 0)(0x51 := 1),
     ruleHashToRoleFlags = (\<lambda>_. 0)(demo_admin_rule := - 1),
     roleIdToNOAssignments = (\<lambda>_. 0)(0xA := 1),
     activeRoleFlags = 7,
     roleIdx2Flag = (\<lambda>_. 0)(1 := 1, 0 := 4, 2 := 2, 3 := 0),
     roleFlag2JuniorMask = (\<lambda>_. 0)(1 := 4, 4 := 2, 2 := 0, 8 := 0),
     numOfActiveRoles = 3,
     freeRoleFlags = NOT 15\<rparr>"

definition demo_chart_A :: state where
  "demo_chart_A = \<lparr>
     DOMAIN_SEPARATOR = 0,
     roleId2Flag = (\<lambda>_. 0)(0xA := 1, 0xB := 0),
     roleFlag2Mask = (\<lambda>_. 0)(1 := 1, 2 := 0),
     user2Roles = (\<lambda>_. 0)(0x51 := 1),
     ruleHashToRoleFlags = (\<lambda>_. 0)(demo_admin_rule := - 1),
     roleIdToNOAssignments = (\<lambda>_. 0)(0xA := 1),
     activeRoleFlags = 1,
     roleIdx2Flag = (\<lambda>_. 0)(0 := 1, 1 := 0),
     roleFlag2JuniorMask = (\<lambda>_. 0)(2 := 0),
     numOfActiveRoles = 1,
     freeRoleFlags = NOT 3\<rparr>"

text \<open>
  Two role definitions that name the flag of the removed role \<open>B\<close>, one as a senior
  and one as a junior.
\<close>

definition demo_role_S :: RoleDef where
  "demo_role_S = \<lparr>roleId = 0xC, roleFlag = 4, seniorFlags = 2, juniorFlags = 0, ruleHashes = []\<rparr>"

definition demo_role_J :: RoleDef where
  "demo_role_J = \<lparr>roleId = 0xC, roleFlag = 4, seniorFlags = 0, juniorFlags = 2, ruleHashes = []\<rparr>"

text \<open>A role definition that asks for the flag of the removed role \<open>B\<close> again.\<close>

definition demo_role_reuse :: RoleDef where
  "demo_role_reuse = \<lparr>roleId = 0xC, roleFlag = 2, seniorFlags = 0, juniorFlags = 0, ruleHashes = []\<rparr>"

text \<open>
  A chart with a grant and a revoke rule for role \<open>B\<close> ("one holder of role \<open>0xA\<close>"), and
  an approval with a recent base block that carries two signatures, of \<open>0x51\<close> and of
  \<open>0x52\<close> (who holds no role), but a single assignment entry.
\<close>

definition demo_grant_approval :: SignedApproval where
  "demo_grant_approval = \<lparr>
     sig = [\<lparr>sig_v = 27, sig_r = 0x51, sig_s = 0\<rparr>, \<lparr>sig_v = 27, sig_r = 0x52, sig_s = 0\<rparr>],
     atoms = [demo_atom_A],
     assignment = [0], selfSignRequired = False, baseBlockHash = 1009\<rparr>"

definition demo_grant_rule :: bytes32 where
  "demo_grant_rule = computeRuleHash demo_env demo_grant_approval GRANT_HASH"

definition demo_revoke_rule :: bytes32 where
  "demo_revoke_rule = computeRuleHash demo_env demo_grant_approval REVOKE_HASH"

definition demo_grant_chart :: state where
  "demo_grant_chart = \<lparr>
     DOMAIN_SEPARATOR = 0,
     roleId2Flag = (\<lambda>_. 0)(0xA := 1, 0xB := 2),
     roleFlag2Mask = (\<lambda>_. 0)(1 := 1, 2 := 2),
     user2Roles = (\<lambda>_. 0)(0x51 := 1, 0x61 := 2),
     ruleHashToRoleFlags = (\<lambda>_. 0)(demo_grant_rule := 2, demo_revoke_rule := 2),
     roleIdToNOAssignments = (\<lambda>_. 0)(0xA := 1, 0xB := 1),
     activeRoleFlags = 3,
     roleIdx2Flag = (\<lambda>_. 0)(0 := 1, 1 := 2),
     roleFlag2JuniorMask = (\<lambda>_. 0),
     numOfActiveRoles = 2,
     freeRoleFlags = NOT 3\<rparr>"

text \<open>A second environment, whose stand-in hash is constant.\<close>

definition demo_env_const :: env where
  "demo_env_const = demo_env\<lparr>keccak256 := (\<lambda>_. 0)\<rparr>"

text \<open>
  The admin rule "one holder of role \<open>0xB\<close> and one holder of role \<open>0xA\<close>" as the
  compiler sees it, its atoms already encoded and written in descending order.
\<close>

definition demo_rule :: "bytes32 RuleDef" where
  "demo_rule = \<lparr>rule_required = [demo_atom_B, demo_atom_A], rule_type = ''admin'',
                 rule_selfSignable = False, rule_selfSignRequired = False\<rparr>"

text \<open>
  An admin approval with a recent base block and 101 signatures, of the users \<open>81\<close> to
  \<open>181\<close> (the list \<open>demo_crowd\<close>), all assigned to the single atom of the admin rule, and
  the example chart with role \<open>A\<close> held by all of them.
\<close>

definition demo_crowd_approval :: SignedApproval where
  "demo_crowd_approval = \<lparr>
     sig = map (\<lambda>i. \<lparr>sig_v = 27, sig_r = of_nat (81 + i), sig_s = 0\<rparr>) [0..<101],
     atoms = [demo_atom_A],
     assignment = replicate 101 0, selfSignRequired = False, baseBlockHash = 1009\<rparr>"

definition demo_crowd_chart :: state where
  "demo_crowd_chart = demo_chart\<lparr>
     user2Roles := (\<lambda>u. if 81 \<le> u \<and> u \<le> 181 then 1 else 0),
     roleIdToNOAssignments := (\<lambda>_. 0)(0xA := 101)\<rparr>"

definition demo_crowd :: "address list" where
  "demo_crowd = map (\<lambda>i. ucast (of_nat (81 + i) :: bytes32)) [0..<101]"

section \<open>Correctness of the bit search and termination of the mask builder\<close>


lemma unat_pow2: "p < 256 \<Longrightarrow> unat (2 ^ p :: 256 word) = 2 ^ p"
proof -
  assume "p < 256"
  then have lt: "(2::nat) ^ p < 2 ^ LENGTH(256)"
    using power_strict_increasing[of p "LENGTH(256)" "2::nat"] by simp
  have "unat (2 ^ p :: 256 word) = unat (of_nat (2 ^ p) :: 256 word)" by simp
  also have "\<dots> = 2 ^ p mod 2 ^ LENGTH(256)" by (simp only: unat_of_nat)
  also have "\<dots> = 2 ^ p" using lt by (rule mod_less)
  finally show ?thesis .
qed

lemma bit_pow2: "p < 256 \<Longrightarrow> bit (2 ^ p :: 256 word) q = (q = p)"
  by (auto simp add: bit_exp_iff)

lemma and_pow2: "((2 ^ p :: 256 word) AND w \<noteq> 0) = bit w p"
  by (simp add: and.commute and_exp_eq_0_iff_not_bit)

lemma bit_nat_between: "2 ^ p \<le> n \<Longrightarrow> n < 2 ^ (Suc p) \<Longrightarrow> bit (n::nat) p"
proof -
  assume a: "2 ^ p \<le> n" "n < 2 ^ (Suc p)"
  have "n div 2 ^ p = 1"
    using a by (simp add: div_nat_eqI) 
  then show ?thesis by (simp add: bit_iff_odd)
qed

lemma bit_word_between: "2 ^ p \<le> unat w \<Longrightarrow> unat w < 2 ^ (Suc p) \<Longrightarrow> bit w p"
  using bit_nat_between[of p "unat w"] by (simp add: bit_unsigned_iff)

lemma pow2_gt: "p < 256 \<Longrightarrow> ((2 ^ p :: 256 word) > w) = (unat w < 2 ^ p)"
  by (simp add: word_less_nat_alt unat_pow2)

lemma drop_pow2: "j \<le> p \<Longrightarrow> p < 256 \<Longrightarrow> drop_bit j (2 ^ p :: 256 word) = 2 ^ (p - j)"
  by (simp add: drop_bit_exp_eq)

lemma push_pow2: "push_bit j (2 ^ p :: 256 word) = 2 ^ (p + j)"
  by (simp add: push_bit_eq_mult power_add mult.commute)

lemma nat_pow2: "n AND (n - 1) = 0 \<Longrightarrow> 0 < n \<Longrightarrow> \<exists>k. n = 2 ^ k" for n :: nat
proof (induction n rule: less_induct)
  case (less n)
  show ?case
  proof (cases "even n")
    case True
    then obtain m where m: "n = 2 * m" by (auto elim: evenE)
    with less.prems have m0: "0 < m" by simp
    have "n - 1 = 2 * (m - 1) + 1" using m m0 by simp
    then have "(n AND (n - 1)) div 2 = m AND (m - 1)"
      using m by (simp add: and_nat_rec[of "2 * m"]  del: One_nat_def) 
    with less.prems have "m AND (m - 1) = 0" by simp
    moreover have "m < n" using m m0 by simp
    ultimately obtain k where "m = 2 ^ k" using less.IH m0 by blast
    then have "n = 2 ^ (Suc k)" using m by simp
    then show ?thesis by blast
  next
    case False
    then obtain m where m: "n = 2 * m + 1" by (auto elim: oddE)
    then have "n - 1 = 2 * m" by simp
    then have "(n AND (n - 1)) div 2 = m"
      using m by (simp add: and_nat_rec[of "2 * m + 1"] del: One_nat_def)
    with less.prems have "m = 0" by simp
    then have "n = 2 ^ 0" using m by simp
    then show ?thesis by blast
  qed
qed

lemma word_pow2: 
  fixes w :: "256 word"
  assumes "w AND (w - 1) = 0" "w \<noteq> 0"
  shows "\<exists>k<256. w = 2 ^ k"
proof -
  have "unat (w AND (w - 1)) = unat w AND (unat w - 1)"
    using assms(2) by (simp add: unsigned_and_eq unat_minus_one)
  then have "unat w AND (unat w - 1) = 0" using assms(1) by simp
  moreover have "0 < unat w" using assms(2) by (simp add: unat_gt_0)
  ultimately obtain k where k: "unat w = 2 ^ k" using nat_pow2 by blast
  have "unat w < 2 ^ LENGTH(256)" by (rule unsigned_less)
  then have "(2::nat) ^ k < 2 ^ LENGTH(256)" using k by simp
  then have "k < LENGTH(256)" by (rule power_less_imp_less_exp[rotated]) simp
  then have "k < 256" by simp
  moreover have "w = 2 ^ k" using k
    by (metis of_nat_unat of_nat_numeral of_nat_power ucast_id)
  ultimately show ?thesis by blast
qed

lemma getPure_loop_correct:
  "2 ^ k \<le> p \<Longrightarrow> p + 2 ^ k \<le> 256 \<Longrightarrow> 2 ^ (p + 1 - 2 ^ k) \<le> unat msk \<Longrightarrow>
   unat msk < 2 ^ (p + 2 ^ k) \<Longrightarrow>
   \<exists>q<256. getPure_loop msk (2 ^ p) (2 ^ k) = 2 ^ q \<and> bit msk q"
proof (induction k arbitrary: p)
  case 0
  then have p: "p < 256" and b: "bit msk p"
    using bit_word_between[of p msk] by simp_all
  then have "getPure_loop msk (2 ^ p) (2 ^ 0) = 2 ^ p"
    by (subst getPure_loop.simps) (simp add: and_pow2)
  with p b show ?case by blast
next
  case (Suc k)
  have pos: "0 < (2::nat) ^ k" by simp
  have kp: "2 ^ k + 2 ^ k \<le> p" and pk: "p + 2 ^ k + 2 ^ k \<le> 256"
    using Suc.prems by simp_all
  have p: "p < 256" using pk pos by linarith
  have "Suc k < 2 ^ Suc k" by (rule less_exp)
  then have k: "Suc k < 256" "k < 256" using kp p by simp_all
  have sh: "(0::uint256) < 2 ^ Suc k"
    using unat_pow2[OF k(1)] by (simp add: word_less_nat_alt)
  have sh': "drop_bit (Suc 0) (2 ^ Suc k :: uint256) = 2 ^ k"
    using drop_pow2[of 1 "Suc k"] k by simp
  have kp1: "2 ^ k \<le> p" using kp by simp
  show ?case
  proof (cases "bit msk p")
    case True
    then have "getPure_loop msk (2 ^ p) (2 ^ Suc k) = 2 ^ p"
      using sh by (subst getPure_loop.simps) (simp add: and_pow2)
    with p True show ?thesis by blast
  next
    case nb: False
    show ?thesis
    proof (cases "unat msk < 2 ^ p")
      case True
      have step: "getPure_loop msk (2 ^ p) (2 ^ Suc k) = getPure_loop msk (2 ^ (p - 2 ^ k)) (2 ^ k)"
        using sh nb True kp1 p
        by (subst getPure_loop.simps[of msk "2 ^ p"])
           (simp add: and_pow2 sh' pow2_gt unat_pow2[OF k(2)] drop_pow2 Let_def del: power_Suc)
      have "\<exists>q<256. getPure_loop msk (2 ^ (p - 2 ^ k)) (2 ^ k) = 2 ^ q \<and> bit msk q"
      proof (rule Suc.IH)
        show "2 ^ k \<le> p - 2 ^ k" using kp by simp
        show "p - 2 ^ k + 2 ^ k \<le> 256" using kp p by simp
        have "p - 2 ^ k + 1 - 2 ^ k = p + 1 - 2 ^ Suc k" using kp by simp
        then show "2 ^ (p - 2 ^ k + 1 - 2 ^ k) \<le> unat msk" using Suc.prems(3) by simp
        have "p - 2 ^ k + 2 ^ k = p" using kp by simp
        then show "unat msk < 2 ^ (p - 2 ^ k + 2 ^ k)" using True by simp
      qed
      with step show ?thesis by simp
    next
      case False
      have step: "getPure_loop msk (2 ^ p) (2 ^ Suc k) = getPure_loop msk (2 ^ (p + 2 ^ k)) (2 ^ k)"
        using sh nb False p
        by (subst getPure_loop.simps[of msk "2 ^ p"])
           (simp add: and_pow2 sh' pow2_gt unat_pow2[OF k(2)] push_pow2 Let_def del: power_Suc)
      have ge: "2 ^ Suc p \<le> unat msk"
      proof (rule ccontr)
        assume "\<not> 2 ^ Suc p \<le> unat msk"
        then have "bit msk p" using False bit_word_between[of p msk] by simp
        with nb show False by simp
      qed
      have "\<exists>q<256. getPure_loop msk (2 ^ (p + 2 ^ k)) (2 ^ k) = 2 ^ q \<and> bit msk q"
      proof (rule Suc.IH)
        show "2 ^ k \<le> p + 2 ^ k" by simp
        show "p + 2 ^ k + 2 ^ k \<le> 256" by (rule pk)
        have "p + 2 ^ k + 1 - 2 ^ k = Suc p" by simp
        then show "2 ^ (p + 2 ^ k + 1 - 2 ^ k) \<le> unat msk" using ge by simp
        have "p + 2 ^ k + 2 ^ k = p + 2 ^ Suc k" by simp
        then show "unat msk < 2 ^ (p + 2 ^ k + 2 ^ k)" using Suc.prems(4) by (simp only:)
      qed
      with step show ?thesis by simp
    qed
  qed
qed

lemma getPure_correct:
  assumes "msk \<noteq> 0"
  shows "\<exists>q<256. getPure msk = 2 ^ q \<and> bit msk q"
proof (cases "msk AND (msk - 1) = 0")
  case True
  then obtain k where k: "k < 256" "msk = 2 ^ k" using word_pow2 assms by blast
  then have "getPure msk = 2 ^ k" using True assms by (simp add: getPure_def)
  moreover have "bit msk k" using k by (simp add: bit_pow2)
  ultimately show ?thesis using k by blast
next
  case False
  then have "msk \<noteq> 1" by auto
  then have "unat msk \<noteq> 1" by (metis unat_1 word_unat_eq_iff)
  moreover have "unat msk \<noteq> 0" using assms by (simp add: unat_eq_0)
  ultimately have ge: "2 \<le> unat msk" by simp
  have lt: "unat msk < 2 ^ 256" using unsigned_less[of msk] by simp
  have "\<exists>q<256. getPure_loop msk (2 ^ 128) (2 ^ 7) = 2 ^ q \<and> bit msk q"
    by (rule getPure_loop_correct) (use ge lt in simp_all)
  moreover have "getPure msk = getPure_loop msk (2 ^ 128) (2 ^ 7)"
    using False assms by (simp add: getPure_def)
  ultimately show ?thesis by simp
qed

lemma xor_pure_less:
  fixes w :: "256 word"
  assumes "bit w q"
  shows "unat (w XOR 2 ^ q) < unat w"
proof -
  have q: "q < 256" using assms bit_imp_le_length[of w q] by simp
  have dis: "NOT w AND 2 ^ q = 0"
    using assms by (intro bit_eqI) (auto simp add: bit_simps)
  have "w XOR 2 ^ q = w - 2 ^ q"
    using disjunctive_diff_eq_xor[OF dis] disjunctive_diff_eq_and_not[OF dis] by simp
  moreover have "w AND 2 ^ q = 2 ^ q"
    using assms q by (intro bit_eqI) (auto simp add: bit_simps)
  then have "(2 ^ q :: 256 word) \<le> w" by (metis word_and_le2)
  ultimately have "unat (w XOR 2 ^ q) = unat w - 2 ^ q"
    by (simp add: unat_sub unat_pow2[OF q])
  moreover have "2 ^ q \<le> unat w" using \<open>2 ^ q \<le> w\<close> by (simp add: word_le_nat_alt unat_pow2[OF q])
  moreover have "0 < (2::nat) ^ q" by simp
  ultimately show ?thesis by linarith
qed

lemma bit_fold_or:
  "bit (fold (\<lambda>i acc. acc OR f i) xs (a :: 256 word)) k \<longleftrightarrow> bit a k \<or> (\<exists>i\<in>set xs. bit (f i) k)"
  by (induction xs arbitrary: a) (auto simp add: bit_or_iff)


termination buildStructureMask_loop
proof (relation "measure (\<lambda>(r2m, roleFlags, msk). unat roleFlags)")
  show "wf (measure (\<lambda>(r2m, roleFlags, msk). unat roleFlags))" by simp
next
  fix r2m :: "uint256 \<Rightarrow> uint256" and roleFlags msk x :: uint256
  assume nz: "roleFlags \<noteq> 0" and x: "x = getPure roleFlags"
  obtain q where "getPure roleFlags = 2 ^ q" "bit roleFlags q"
    using getPure_correct[OF nz] by blast
  then have "unat (roleFlags XOR x) < unat roleFlags"
    using x xor_pure_less by simp
  then show "((r2m, roleFlags XOR x, msk OR r2m x), r2m, roleFlags, msk)
               \<in> measure (\<lambda>(r2m, roleFlags, msk). unat roleFlags)"
    by simp
qed

declare buildStructureMask_loop.simps [simp del]

lemma bit_buildStructureMask_loop:
  "bit (buildStructureMask_loop r2m roleFlags msk) k \<longleftrightarrow>
     bit msk k \<or> (\<exists>i. bit roleFlags i \<and> bit (r2m (2 ^ i)) k)"
proof (induction r2m roleFlags msk rule: buildStructureMask_loop.induct)
  case (1 r2m roleFlags msk)
  show ?case
  proof (cases "roleFlags = 0")
    case True
    then show ?thesis by (subst buildStructureMask_loop.simps) simp
  next
    case False
    then obtain q where q: "getPure roleFlags = 2 ^ q" "bit roleFlags q"
      using getPure_correct by blast
    have q256: "q < 256" using q(2) bit_imp_le_length[of roleFlags q] by simp
    have rest: "bit (roleFlags XOR 2 ^ q) i \<longleftrightarrow> bit roleFlags i \<and> i \<noteq> q" for i
      using q(2) q256 by (auto simp add: bit_xor_iff bit_pow2)
    have "bit (buildStructureMask_loop r2m roleFlags msk) k \<longleftrightarrow>
          bit (buildStructureMask_loop r2m (roleFlags XOR 2 ^ q) (msk OR r2m (2 ^ q))) k"
      using False q(1) by (subst buildStructureMask_loop.simps) (simp add: Let_def)
    also have "\<dots> \<longleftrightarrow> bit (msk OR r2m (2 ^ q)) k
                  \<or> (\<exists>i. bit (roleFlags XOR 2 ^ q) i \<and> bit (r2m (2 ^ i)) k)"
      using "1.IH"[OF False refl] q(1) by simp
    also have "\<dots> \<longleftrightarrow> bit msk k \<or> (\<exists>i. bit roleFlags i \<and> bit (r2m (2 ^ i)) k)"
      using q(2) by (auto simp add: bit_or_iff rest)
    finally show ?thesis .
  qed
qed

lemma buildStructureMask_fold:
  "buildStructureMask r2m flags =
     fold (\<lambda>i acc. acc OR r2m (2 ^ i)) (filter (bit flags) [0..<256]) 0"
proof (rule bit_eqI)
  fix k
  have "(\<exists>i. bit flags i \<and> bit (r2m (2 ^ i)) k) \<longleftrightarrow>
        (\<exists>i\<in>set (filter (bit flags) [0..<256]). bit (r2m (2 ^ i)) k)"
    using bit_imp_le_length[of flags] by auto
  then show "bit (buildStructureMask r2m flags) k =
             bit (fold (\<lambda>i acc. acc OR r2m (2 ^ i)) (filter (bit flags) [0..<256]) 0) k"
    by (simp only: buildStructureMask_def bit_buildStructureMask_loop bit_fold_or)
qed

lemma getPure_is_bit:
  assumes "msk \<noteq> 0"
  shows "(\<exists>n<256. getPure msk = 2 ^ n) \<and> getPure msk AND msk = getPure msk \<and> getPure msk \<noteq> 0"
proof -
  obtain q where q: "q < 256" "getPure msk = 2 ^ q" "bit msk q"
    using getPure_correct[OF assms] by blast
  have "(2 ^ q :: uint256) AND msk = 2 ^ q"
    using q(1,3) by (intro bit_eqI) (auto simp add: bit_simps)
  moreover have "(2 ^ q :: uint256) \<noteq> 0"
    using unat_pow2[OF q(1)] by (metis power_not_zero unat_0 zero_neq_numeral)
  ultimately show ?thesis using q by auto
qed

lemma nat_ceiling_div100:
  "nat \<lceil>real n / 100\<rceil> = n div 100 + (if n mod 100 > 0 then 1 else 0)"
proof -
  have "\<lceil>real n / 100\<rceil> = int (n div 100 + (if n mod 100 > 0 then 1 else 0))"
  proof (rule ceiling_unique)
    have n: "real n = 100 * real (n div 100) + real (n mod 100)"
      by (metis of_nat_add of_nat_mult of_nat_numeral div_mult_mod_eq mult.commute)
    have m: "real (n mod 100) < 100" by simp
    show "real_of_int (int (n div 100 + (if 0 < n mod 100 then 1 else 0))) - 1 < real n / 100"
      using n m by (auto simp add: field_simps)
    show "real n / 100 \<le> real_of_int (int (n div 100 + (if 0 < n mod 100 then 1 else 0)))"
      using n m by (auto simp add: field_simps)
  qed
  then show ?thesis by simp
qed

section \<open>What the calls do to the flag bookkeeping\<close>


lemma fold_preserves:
  "(\<And>i acc. Q (f i acc) = Q acc) \<Longrightarrow> Q (fold f xs acc) = Q acc"
  by (induction xs arbitrary: acc) simp_all


lemma addRole_iter_fields:
  "flag_fields (fst (addRole_iter rd m i acc)) = flag_fields (fst acc)"
  by (simp add: addRole_iter_def flag_fields_def Let_def split: prod.splits)

lemma removeRole_iter_fields:
  "flag_fields (fst (removeRole_iter d i acc)) = flag_fields (fst acc)"
  by (simp add: removeRole_iter_def flag_fields_def Let_def split: prod.splits)

lemma shiftRight_fields:
  "shiftRightRoleIdx st from = Inr st' \<Longrightarrow> flag_fields st' = flag_fields st"
  by (auto simp add: shiftRightRoleIdx_def flag_fields_def Let_def split: if_splits)

lemma shiftLeft_fields:
  "shiftLeftRoleIdx st to = Inr st' \<Longrightarrow> flag_fields st' = flag_fields st"
  by (auto simp add: shiftLeftRoleIdx_def flag_fields_def Let_def split: if_splits)

lemma ruleHashes_fields:
  "flag_fields (fold (\<lambda>h s. s\<lparr>ruleHashToRoleFlags :=
                     (ruleHashToRoleFlags s)(h := ruleHashToRoleFlags s h OR f)\<rparr>) hs st)
     = flag_fields st"
  by (rule fold_preserves) (simp add: flag_fields_def)

lemma addRole_Inr:
  assumes "addRole env st ap rd = Inr st'"
  shows "\<not> selfSignRequired ap \<and> requireValidRoleDef st rd = Inr ()
         \<and> freeRoleFlags st' = freeRoleFlags st XOR roleFlag rd
         \<and> activeRoleFlags st' = activeRoleFlags st OR roleFlag rd
         \<and> roleId2Flag st' = (roleId2Flag st)(roleId rd := roleFlag rd)"
proof -
  let ?m = "buildStructureMask (roleFlag2Mask st) (juniorFlags rd) OR roleFlag rd"
  let ?acc = "fold (addRole_iter rd ?m) [0..<unat (numOfActiveRoles st)] (st, numOfActiveRoles st)"
  from assms have a: "\<not> selfSignRequired ap" and b: "requireValidRoleDef st rd = Inr ()"
    by (auto simp add: addRole_def split: if_splits sum.splits)
  from assms a b obtain st2 where st2: "shiftRightRoleIdx (fst ?acc) (snd ?acc) = Inr st2"
    by (auto simp add: addRole_def Let_def split: if_splits sum.splits prod.splits)
  have f1: "flag_fields (fst ?acc) = flag_fields st"
    using fold_preserves[of "\<lambda>acc. flag_fields (fst acc)" "addRole_iter rd ?m"]
    by (simp add: addRole_iter_fields)
  have f2: "flag_fields st2 = flag_fields st" using shiftRight_fields[OF st2] f1 by simp
  let ?st3 = "st2\<lparr>roleIdx2Flag := (roleIdx2Flag st2)(snd ?acc := roleFlag rd),
                   roleId2Flag := (roleId2Flag st2)(roleId rd := roleFlag rd),
                   roleFlag2JuniorMask := (roleFlag2JuniorMask st2)(roleFlag rd := juniorFlags rd),
                   roleFlag2Mask := (roleFlag2Mask st2)(roleFlag rd := ?m)\<rparr>"
  let ?st4 = "fold (\<lambda>h s. s\<lparr>ruleHashToRoleFlags := (ruleHashToRoleFlags s)
                 (h := ruleHashToRoleFlags s h OR roleFlag rd)\<rparr>) (ruleHashes rd) ?st3"
  have st': "st' = ?st4\<lparr>freeRoleFlags := freeRoleFlags ?st4 XOR roleFlag rd,
                          activeRoleFlags := activeRoleFlags ?st4 OR roleFlag rd\<rparr>"
    using assms a b st2
    by (auto simp add: addRole_def Let_def split: if_splits sum.splits prod.splits)
  have f4: "flag_fields ?st4 = flag_fields ?st3" by (rule ruleHashes_fields)
  have "flag_fields ?st3 = (freeRoleFlags st, activeRoleFlags st,
                            (roleId2Flag st)(roleId rd := roleFlag rd))"
    using f2 by (simp add: flag_fields_def)
  with f4 st' a b show ?thesis by (simp add: flag_fields_def)
qed

lemma removeRole_Inr:
  assumes "removeRole env st ap rid = Inr st'"
  shows "roleId2Flag st rid \<noteq> 0
         \<and> freeRoleFlags st' = freeRoleFlags st
         \<and> activeRoleFlags st' = activeRoleFlags st XOR roleId2Flag st rid
         \<and> roleId2Flag st' = (roleId2Flag st)(rid := 0)"
proof -
  let ?d = "roleId2Flag st rid"
  let ?acc = "fold (removeRole_iter ?d) [0..<unat (numOfActiveRoles st)] (st, 0)"
  from assms have a: "?d \<noteq> 0"
    by (auto simp add: removeRole_def Let_def split: if_splits sum.splits)
  from assms obtain st2 where st2: "shiftLeftRoleIdx (fst ?acc) (snd ?acc) = Inr st2"
    and st': "st' = st2\<lparr>roleId2Flag := (roleId2Flag st2)(rid := 0),
                          roleFlag2Mask := (roleFlag2Mask st2)(?d := 0),
                          roleFlag2JuniorMask := (roleFlag2JuniorMask st2)(?d := 0),
                          activeRoleFlags := activeRoleFlags st2 XOR ?d\<rparr>"
    by (auto simp add: removeRole_def Let_def split: if_splits sum.splits prod.splits)
  have f1: "flag_fields (fst ?acc) = flag_fields st"
    using fold_preserves[of "\<lambda>acc. flag_fields (fst acc)" "removeRole_iter ?d"]
    by (simp add: removeRole_iter_fields)
  have f2: "flag_fields st2 = flag_fields st" using shiftLeft_fields[OF st2] f1 by simp
  with st' a show ?thesis by (simp add: flag_fields_def)
qed

lemma grantRole_Inr:
  "grantRole env st ap nominee rid = Inr st' \<Longrightarrow> flag_fields st' = flag_fields st"
  by (auto simp add: grantRole_def flag_fields_def Let_def split: if_splits sum.splits)

lemma revokeRole_Inr:
  "revokeRole env st ap nominee rid = Inr st' \<Longrightarrow> flag_fields st' = flag_fields st"
  by (auto simp add: revokeRole_def flag_fields_def Let_def split: if_splits sum.splits)



lemma single_bit_subset:
  fixes f m :: uint256
  assumes "f \<noteq> 0" "f AND (f - 1) = 0" "f AND m \<noteq> 0"
  shows "f AND m = f"
proof -
  obtain k where k: "k < 256" "f = 2 ^ k" using word_pow2[OF assms(2,1)] by blast
  then have "bit m k" using assms(3) and_pow2[of k m] by simp
  then show ?thesis using k by (intro bit_eqI) (auto simp add: bit_simps)
qed

lemma requireValidRoleDef_Inr:
  "requireValidRoleDef st rd = Inr () \<Longrightarrow>
     roleFlag rd AND freeRoleFlags st = roleFlag rd \<and> roleId2Flag st (roleId rd) = 0"
  using single_bit_subset[of "roleFlag rd" "freeRoleFlags st"]
  by (auto simp add: requireValidRoleDef_def split: if_splits)

lemma and_zero_bits: "(x AND y = 0) = (\<forall>n. \<not> (bit x n \<and> bit y n))" for x y :: uint256
proof
  assume a: "x AND y = 0"
  show "\<forall>n. \<not> (bit x n \<and> bit y n)"
  proof (intro allI notI)
    fix n assume "bit x n \<and> bit y n"
    then have "bit (x AND y) n" by (simp add: bit_and_iff)
    with a show False by simp
  qed
next
  assume "\<forall>n. \<not> (bit x n \<and> bit y n)"
  then show "x AND y = 0" by (intro bit_eqI) (simp add: bit_and_iff)
qed

lemma and_subset_bits: "(x AND y = x) = (\<forall>n. bit x n \<longrightarrow> bit y n)" for x y :: uint256
proof
  assume a: "x AND y = x"
  show "\<forall>n. bit x n \<longrightarrow> bit y n"
  proof (intro allI impI)
    fix n assume "bit x n"
    then have "bit (x AND y) n" using a by simp
    then show "bit y n" by (simp add: bit_and_iff)
  qed
next
  assume "\<forall>n. bit x n \<longrightarrow> bit y n"
  then show "x AND y = x" by (intro bit_eqI) (auto simp add: bit_and_iff)
qed

lemma execute_free_shrinks:
  assumes "execute env st c = Inr st'" "x AND freeRoleFlags st = 0"
  shows "x AND freeRoleFlags st' = 0"
proof (cases c)
  case (GrantRole ap nominee rid)
  then show ?thesis using assms grantRole_Inr[of env st ap nominee rid st']
    by (simp add: flag_fields_def)
next
  case (RevokeRole ap nominee rid)
  then show ?thesis using assms revokeRole_Inr[of env st ap nominee rid st']
    by (simp add: flag_fields_def)
next
  case (AddRole ap rd)
  then have a: "addRole env st ap rd = Inr st'" using assms by simp
  have "freeRoleFlags st' = freeRoleFlags st XOR roleFlag rd"
    using addRole_Inr[OF a] by simp
  moreover have "\<And>n. bit (roleFlag rd) n \<Longrightarrow> bit (freeRoleFlags st) n"
    using requireValidRoleDef_Inr[of st rd] addRole_Inr[OF a]
    unfolding and_subset_bits by blast
  ultimately show ?thesis using assms(2) by (auto simp add: and_zero_bits bit_simps)
next
  case (RemoveRole ap rid)
  then show ?thesis using assms removeRole_Inr[of env st ap rid st'] by simp
qed

lemma transact_free_shrinks:
  "x AND freeRoleFlags st = 0 \<Longrightarrow> x AND freeRoleFlags (transact st tx) = 0"
  using execute_free_shrinks[of "fst tx" st "snd tx"]
  by (auto simp add: transact_def split: sum.splits)

lemma run_free_shrinks:
  "x AND freeRoleFlags st = 0 \<Longrightarrow> x AND freeRoleFlags (run st txs) = 0"
  unfolding run_def by (induction txs arbitrary: st) (simp_all add: transact_free_shrinks)

lemma execute_flags_wf:
  assumes "execute env st c = Inr st'" "flags_wf st"
  shows "flags_wf st'"
proof (cases c)
  case (GrantRole ap nominee rid)
  then show ?thesis using assms grantRole_Inr[of env st ap nominee rid st']
    by (simp add: flag_fields_def flags_wf_def)
next
  case (RevokeRole ap nominee rid)
  then show ?thesis using assms revokeRole_Inr[of env st ap nominee rid st']
    by (simp add: flag_fields_def flags_wf_def)
next
  case (AddRole ap rd)
  then have a: "addRole env st ap rd = Inr st'" using assms by simp
  note r = addRole_Inr[OF a]
  have v: "roleFlag rd AND freeRoleFlags st = roleFlag rd" "roleId2Flag st (roleId rd) = 0"
    using requireValidRoleDef_Inr r by blast+
  have w1: "\<And>n. bit (activeRoleFlags st) n \<Longrightarrow> bit (freeRoleFlags st) n \<Longrightarrow> False"
    and w2: "\<And>rid n. bit (roleId2Flag st rid) n \<Longrightarrow> bit (activeRoleFlags st) n"
    and w3: "\<And>rid rid' n. rid \<noteq> rid' \<Longrightarrow> bit (roleId2Flag st rid) n
                 \<Longrightarrow> bit (roleId2Flag st rid') n \<Longrightarrow> False"
    using assms(2) unfolding flags_wf_def and_zero_bits and_subset_bits by blast+
  have v1: "\<And>n. bit (roleFlag rd) n \<Longrightarrow> bit (freeRoleFlags st) n"
    using v(1) unfolding and_subset_bits by blast
  show ?thesis
    unfolding flags_wf_def and_zero_bits and_subset_bits
    using r by (auto simp add: bit_simps dest: w1 w2 w3 v1)
next
  case (RemoveRole ap rid)
  then have a: "removeRole env st ap rid = Inr st'" using assms by simp
  note r = removeRole_Inr[OF a]
  have w1: "\<And>n. bit (activeRoleFlags st) n \<Longrightarrow> bit (freeRoleFlags st) n \<Longrightarrow> False"
    and w2: "\<And>rid n. bit (roleId2Flag st rid) n \<Longrightarrow> bit (activeRoleFlags st) n"
    and w3: "\<And>rid rid' n. rid \<noteq> rid' \<Longrightarrow> bit (roleId2Flag st rid) n
                 \<Longrightarrow> bit (roleId2Flag st rid') n \<Longrightarrow> False"
    using assms(2) unfolding flags_wf_def and_zero_bits and_subset_bits by blast+
  show ?thesis
    unfolding flags_wf_def and_zero_bits and_subset_bits
    using r by (auto simp add: bit_simps dest: w1 w2 w3)
qed

lemma transact_flags_wf: "flags_wf st \<Longrightarrow> flags_wf (transact st tx)"
  using execute_flags_wf[of "fst tx" st "snd tx"]
  by (auto simp add: transact_def split: sum.splits)

lemma run_flags_wf: "flags_wf st \<Longrightarrow> flags_wf (run st txs)"
  unfolding run_def by (induction txs arbitrary: st) (simp_all add: transact_flags_wf)

lemma run_append: "run st (txs1 @ txs2) = run (run st txs1) txs2"
  by (simp add: run_def)

lemma addRole_taken:
  assumes "flag AND freeRoleFlags st = 0" "flag \<noteq> 0" "roleFlag rd = flag"
  shows "\<exists>e. addRole env st ap rd = Inl e
             \<and> (\<not> selfSignRequired ap \<and> flag AND (flag - 1) = 0 \<longrightarrow> e = RoleFlagTaken)"
  using assms by (auto simp add: addRole_def requireValidRoleDef_def)

section \<open>The signers beyond the assignment array\<close>

lemma countSigners_take:
  "i + length rest \<le> length signers \<Longrightarrow>
   countSigners st nominee signers atms rest i cnt =
   countSigners st nominee (take (i + length rest) signers) atms rest i cnt"
proof (induction rest arbitrary: i cnt)
  case Nil
  show ?case by simp
next
  case (Cons a rest)
  have i: "i < length signers" using Cons.prems by simp
  have ih: "\<And>cnt'. countSigners st nominee signers atms rest (Suc i) cnt' =
        countSigners st nominee (take (i + length (a # rest)) signers) atms rest (Suc i) cnt'"
    using Cons.IH[of "Suc i"] Cons.prems by simp
  show ?case using i Cons.prems
    by (simp add: ih split: sum.splits)
qed

lemma isValidBaseBlock_loop_error:
  "isValidBaseBlock_loop env bbh is = Inl e \<Longrightarrow> e = Panic"
  by (induction "is") (auto split: if_splits)

section \<open>Running the contracts on the example charts\<close>

lemma demo_env_simps:
  "keccak256 demo_env = demo_keccak" "ecrecover demo_env = (\<lambda>h v r s. ucast r)"
  "blockNumber demo_env = 10" "blockhash demo_env = (\<lambda>n. n + 1000)"
  by (simp_all add: demo_env_def)

lemma demo_approval_simps:
  "sig demo_approval = [\<lparr>sig_v = 27, sig_r = 0x51, sig_s = 0\<rparr>]"
  "atoms demo_approval = [demo_atom_A]"
  "assignment demo_approval = [0]" "selfSignRequired demo_approval = False"
  "baseBlockHash demo_approval = 0"
  by (simp_all add: demo_approval_def)

lemmas eval_simps =
  buildStructureMask_def buildStructureMask_loop.simps getPure_def getPure_loop.simps
  hasRole_def strictlyHasRole_def Let_def checkSigner_def requireRuleFulfillment_def
  getSigners_def requireValidAdminRequest_def requireValidAddRoleRequest_def
  requireValidRemoveRequest_def requireValidRoleDef_def addRole_def removeRole_def
  addRole_iter_def removeRole_iter_def shiftRightRoleIdx_def shiftLeftRoleIdx_def
  ATOM_FLAG_STRICT_def ATOM_FLAG_REL_QTY_def roleIdMask_def MAX_NUM_RULES_def upt_conv_Cons
  demo_env_simps demo_approval_simps demo_atom_A_def demo_admin_rule_def[symmetric]

lemma demo_stale: "isValidBaseBlock demo_env (baseBlockHash demo_approval) = Inr False"
  by (simp add: isValidBaseBlock_def LOOK_BACK_LENGTH_def demo_env_simps demo_approval_simps
      upt_conv_Cons)

lemma demo_add_R: "addRole demo_env demo_chart demo_approval demo_role_R = Inr demo_chart_R"
  by (simp add: eval_simps demo_chart_def demo_role_R_def demo_chart_R_def)

lemma demo_add_C: "addRole demo_env demo_chart_R demo_approval demo_role_C = Inr demo_chart_RC"
  by (simp add: eval_simps demo_chart_R_def demo_role_C_def demo_chart_RC_def)

lemma demo_remove_C:
  "removeRole demo_env demo_chart_RC demo_approval 0xD = Inr demo_chart_RC_removed"
  by (simp add: eval_simps demo_chart_RC_def demo_chart_RC_removed_def)

lemma demo_remove_B: "removeRole demo_env demo_chart demo_approval 0xB = Inr demo_chart_A"
  by (simp add: eval_simps demo_chart_def demo_chart_A_def)

lemma demo_reach_RC:
  "run demo_chart [(demo_env, AddRole demo_approval demo_role_R),
                   (demo_env, AddRole demo_approval demo_role_C)] = demo_chart_RC"
  by (simp add: run_def transact_def demo_add_R demo_add_C)

lemmas maskConsistent_eval = maskConsistent_def buildStructureMask_fold[symmetric]

lemma demo_consistent: "maskConsistent demo_chart"
  unfolding maskConsistent_eval by (simp add: eval_simps demo_chart_def)

lemma demo_consistent_RC: "maskConsistent demo_chart_RC"
  unfolding maskConsistent_eval by (simp add: eval_simps demo_chart_RC_def)

lemma demo_inconsistent: "\<not> maskConsistent demo_chart_RC_removed"
  unfolding maskConsistent_eval by (simp add: eval_simps demo_chart_RC_removed_def)

lemma demo_grant_approval_simps:
  "sig demo_grant_approval =
     [\<lparr>sig_v = 27, sig_r = 0x51, sig_s = 0\<rparr>, \<lparr>sig_v = 27, sig_r = 0x52, sig_s = 0\<rparr>]"
  "atoms demo_grant_approval = [demo_atom_A]"
  "assignment demo_grant_approval = [0]" "selfSignRequired demo_grant_approval = False"
  "baseBlockHash demo_grant_approval = 1009"
  by (simp_all add: demo_grant_approval_def)

lemma demo_flags_wf: "flags_wf demo_chart"
  by (simp add: flags_wf_def demo_chart_def)

section \<open>Admin calls and the block context\<close>

lemma getSigners_loop_ignores_block:
  "getSigners_loop (env\<lparr>blockNumber := n, blockhash := bh\<rparr>) sigs nominee h lastAdd ss signers
     = getSigners_loop env sigs nominee h lastAdd ss signers"
  by (induction sigs arbitrary: lastAdd ss signers) (simp_all add: Let_def)

lemma hashes_ignore_block:
  "computeRuleHash (env\<lparr>blockNumber := n, blockhash := bh\<rparr>) ap action
     = computeRuleHash env ap action"
  "computeAddRoleReqHash (env\<lparr>blockNumber := n, blockhash := bh\<rparr>) st rd bbh
     = computeAddRoleReqHash env st rd bbh"
  "computeRemoveRoleReqHash (env\<lparr>blockNumber := n, blockhash := bh\<rparr>) st rid bbh
     = computeRemoveRoleReqHash env st rid bbh"
  by (simp_all add: computeRuleHash_def computeAddRoleReqHash_def computeRemoveRoleReqHash_def
      wrapAsEthSignedMessage_def)

lemma admin_request_ignores_block:
  "requireValidAdminRequest (env\<lparr>blockNumber := n, blockhash := bh\<rparr>) st ap h
     = requireValidAdminRequest env st ap h"
  by (simp add: requireValidAdminRequest_def getSigners_def getSigners_loop_ignores_block
      hashes_ignore_block)

lemma admin_calls_ignore_block:
  "addRole (env\<lparr>blockNumber := n, blockhash := bh\<rparr>) st ap rd = addRole env st ap rd"
  "removeRole (env\<lparr>blockNumber := n, blockhash := bh\<rparr>) st ap rid = removeRole env st ap rid"
  by (simp_all only: addRole_def removeRole_def requireValidAddRoleRequest_def
      requireValidRemoveRequest_def admin_request_ignores_block hashes_ignore_block)

lemma demo_crowd_simps:
  "atoms demo_crowd_approval = [demo_atom_A]"
  "selfSignRequired demo_crowd_approval = False"
  "baseBlockHash demo_crowd_approval = 1009"
  "assignment demo_crowd_approval = replicate 101 0"
  "sig demo_crowd_approval = map (\<lambda>i. \<lparr>sig_v = 27, sig_r = of_nat (81 + i), sig_s = 0\<rparr>) [0..<101]"
  by (simp_all add: demo_crowd_approval_def)

lemma demo_crowd_rule: "computeRuleHash demo_env demo_crowd_approval ADMIN_HASH = demo_admin_rule"
  by (simp add: computeRuleHash_def demo_admin_rule_def demo_crowd_simps demo_approval_simps)

lemma demo_crowd_rejected_by_modifier:
  "onlyValidApprovals demo_env demo_crowd_approval = Inl TooManySigners"
  by (simp add: onlyValidApprovals_def isValidBaseBlock_def LOOK_BACK_LENGTH_def
      MAX_NUM_SIGNERS_def demo_env_simps demo_crowd_simps upt_conv_Cons)



lemma getSigners_loop_ascending:
  "sorted_wrt (<) (lastAdd # map (\<lambda>sg. ecrecover env h (sig_v sg) (sig_r sg) (sig_s sg)) sigs) \<Longrightarrow>
   getSigners_loop env sigs nominee h lastAdd ss signers =
     Inr (ss \<or> nominee \<in> set (map (\<lambda>sg. ecrecover env h (sig_v sg) (sig_r sg) (sig_s sg)) sigs),
          signers @ map (\<lambda>sg. ecrecover env h (sig_v sg) (sig_r sg) (sig_s sg)) sigs)"
proof (induction sigs arbitrary: lastAdd ss signers)
  case Nil
  show ?case by simp
next
  case (Cons sg rest)
  let ?r = "ecrecover env h (sig_v sg) (sig_r sg) (sig_s sg)"
  have lt: "lastAdd < ?r" using Cons.prems by simp
  have "sorted_wrt (<) (?r # map (\<lambda>sg. ecrecover env h (sig_v sg) (sig_r sg) (sig_s sg)) rest)"
    using Cons.prems by simp
  from Cons.IH[OF this] lt show ?case by (auto simp add: Let_def)
qed

lemma countSigners_all_hold:
  assumes "\<forall>s\<in>set signers. s \<noteq> nominee \<and> hasRole st s (atom AND roleIdMask) = Inr True"
      and "atom AND ATOM_FLAG_STRICT \<noteq> ATOM_FLAG_STRICT"
  shows "i + k \<le> length signers \<Longrightarrow> i + k \<le> 255 \<Longrightarrow> unat c + k \<le> 255 \<Longrightarrow>
         countSigners st nominee signers [atom] (replicate k 0) i [c] = Inr [c + of_nat k]"
proof (induction k arbitrary: i c)
  case 0
  show ?case by simp
next
  case (Suc k)
  have i: "i < length signers" "i \<noteq> 255" using Suc.prems by simp_all
  then have s: "signers ! i \<noteq> nominee" "hasRole st (signers ! i) (atom AND roleIdMask) = Inr True"
    using assms(1) by simp_all
  have c: "c \<noteq> 255" using Suc.prems(3) by auto
  have "unat (c + 1) = unat c + 1"
    using Suc.prems(3) by (simp add: unat_word_ariths)
  then have ih: "countSigners st nominee signers [atom] (replicate k 0) (Suc i) [c + 1]
                   = Inr [c + 1 + of_nat k]"
    using Suc.IH[of "Suc i" "c + 1"] Suc.prems by simp
  show ?case using i s c assms(2) ih
    by (simp add: checkSigner_def Let_def add.assoc)
qed

lemma crowd_address:
  assumes "i < 101"
  shows "unat (ucast (of_nat (81 + i) :: bytes32) :: address) = 81 + i"
proof -
  have a: "81 + i < 2 ^ 160" "81 + i < 2 ^ 256" using assms by simp_all
  have "unat (of_nat (81 + i) :: bytes32) = 81 + i"
    using a(2) by (simp add: unat_of_nat del: of_nat_add)
  then have "(ucast (of_nat (81 + i) :: bytes32) :: address) = of_nat (81 + i)"
    by (metis of_nat_unat)
  then show ?thesis using a(1) by (simp add: unat_of_nat del: of_nat_add)
qed


lemma demo_crowd_signers:
  "getSigners demo_env (sig demo_crowd_approval) 0 h = Inr (False, demo_crowd)"
proof -
  have m: "map (\<lambda>sg. ecrecover demo_env h (sig_v sg) (sig_r sg) (sig_s sg))
             (sig demo_crowd_approval) = demo_crowd"
    by (simp add: demo_crowd_simps demo_env_simps demo_crowd_def comp_def)
  have pos: "\<forall>x\<in>set demo_crowd. 0 < x"
    using crowd_address by (auto simp add: demo_crowd_def word_less_nat_alt)
  have asc: "sorted_wrt (<) demo_crowd"
    using crowd_address
    by (auto simp add: sorted_wrt_iff_nth_less demo_crowd_def word_less_nat_alt)
  have "0 \<notin> set demo_crowd" using pos by auto
  then show ?thesis
    using getSigners_loop_ascending[of 0 demo_env h "sig demo_crowd_approval" 0 False "[]"]
      pos asc by (simp add: getSigners_def m)
qed

lemma demo_crowd_holds:
  "\<forall>s\<in>set demo_crowd. s \<noteq> 0 \<and>
      hasRole demo_crowd_chart s
        (demo_atom_A AND roleIdMask)
        = Inr True"
proof
  fix s assume "s \<in> set demo_crowd"
  then obtain i where i: "i < 101" "s = ucast (of_nat (81 + i) :: bytes32)"
    by (auto simp add: demo_crowd_def)
  then have u: "unat s = 81 + i" using crowd_address by simp
  then have "81 \<le> s" "s \<le> 181" "s \<noteq> 0"
    using i(1) by (auto simp add: word_le_nat_alt)
  then show "s \<noteq> 0 \<and> hasRole demo_crowd_chart s
        (demo_atom_A AND roleIdMask)
        = Inr True"
    by (simp add: hasRole_def demo_crowd_chart_def demo_chart_def roleIdMask_def
        demo_atom_A_def)
qed

lemma demo_crowd_request:
  "requireValidAddRoleRequest demo_env demo_crowd_chart demo_crowd_approval rd = Inr ()"
proof -
  have len: "length demo_crowd = 101" by (simp add: demo_crowd_def)
  have "countSigners demo_crowd_chart 0 demo_crowd
          [demo_atom_A]
          (replicate 101 0) 0 [0] = Inr [0 + of_nat 101]"
    by (rule countSigners_all_hold[OF demo_crowd_holds])
       (simp_all add: ATOM_FLAG_STRICT_def len demo_atom_A_def)
  then have "requireRuleFulfillment demo_crowd_chart 0 demo_crowd
          (atoms demo_crowd_approval) (assignment demo_crowd_approval) = Inr ()"
    by (simp add: requireRuleFulfillment_def demo_crowd_simps ATOM_FLAG_REL_QTY_def
        demo_atom_A_def)
  moreover have "ruleHashToRoleFlags demo_crowd_chart demo_admin_rule = - 1"
    by (simp add: demo_crowd_chart_def demo_chart_def)
  ultimately show ?thesis
    by (simp add: requireValidAddRoleRequest_def requireValidAdminRequest_def demo_crowd_rule
        demo_crowd_signers)
qed

lemma demo_crowd_accepted:
  "case addRole demo_env demo_crowd_chart demo_crowd_approval demo_role_R of
     Inl e \<Rightarrow> False | Inr st \<Rightarrow> roleId2Flag st 0xC = 4 \<and> activeRoleFlags st = 7"
  unfolding addRole_def demo_crowd_request
  by (simp add: demo_crowd_simps requireValidRoleDef_def
      buildStructureMask_def buildStructureMask_loop.simps getPure_def getPure_loop.simps Let_def
      addRole_iter_def shiftRightRoleIdx_def MAX_NUM_RULES_def upt_conv_Cons
      demo_crowd_chart_def demo_chart_def demo_role_R_def)

section \<open>The ABI encoding is injective\<close>


lemma length_bytes32_be: "length (bytes32_be w) = 32"
  by (simp add: bytes32_be_def)

lemma bit_be_word_step:
  "bit (foldl (\<lambda>acc b. push_bit 8 acc OR ucast b) (a :: uint256) (bs :: bytes)) n \<longleftrightarrow>
     n < 256 \<and> (if n < 8 * length bs then bit (bs ! (length bs - 1 - n div 8)) (n mod 8)
                 else bit a (n - 8 * length bs))"
proof (induction bs arbitrary: n rule: rev_induct)
  case Nil
  show ?case using bit_imp_le_length[of a n] by auto
next
  case (snoc b bs)
  show ?case
  proof (cases "n < 8")
    case True
    then show ?thesis
      by (simp add: bit_or_iff bit_push_bit_iff bit_ucast_iff)
  next
    case False
    then have n8: "8 \<le> n" by simp
    obtain m where m: "n = m + 8" using n8 by (metis le_add_diff_inverse2)
    have d: "(n - 8) div 8 = n div 8 - 1" "(n - 8) mod 8 = n mod 8" "1 \<le> n div 8"
      by (simp_all add: m)
    have "bit (b :: 8 word) n = False" using False bit_imp_le_length[of b n] by auto
    then have "bit (foldl (\<lambda>acc b. push_bit 8 acc OR ucast b) a (bs @ [b])) n \<longleftrightarrow>
          n < 256 \<and> bit (foldl (\<lambda>acc b. push_bit 8 acc OR ucast b) a bs) (n - 8)"
      using n8 by (auto simp add: bit_or_iff bit_push_bit_iff bit_ucast_iff)
    also have "\<dots> \<longleftrightarrow> n < 256 \<and>
        (if n - 8 < 8 * length bs then bit (bs ! (length bs - 1 - (n - 8) div 8)) ((n - 8) mod 8)
         else bit a (n - 8 - 8 * length bs))"
      using snoc.IH[of "n - 8"] n8 by auto
    also have "\<dots> \<longleftrightarrow> n < 256 \<and>
        (if n < 8 * length (bs @ [b])
         then bit ((bs @ [b]) ! (length (bs @ [b]) - 1 - n div 8)) (n mod 8)
         else bit a (n - 8 * length (bs @ [b])))"
    proof (cases "n - 8 < 8 * length bs")
      case True
      then have lt: "n < 8 * length (bs @ [b])" using n8 by simp
      have "n div 8 \<le> length bs" using lt by simp
      then have idx: "length bs - 1 - (n div 8 - 1) = length bs - n div 8"
        and il: "length bs - n div 8 < length bs"
        using d(3) True n8 by auto
      show ?thesis using True lt idx il by (simp add: d nth_append)
    next
      case False
      then have "\<not> n < 8 * length (bs @ [b])" using n8 by simp
      then show ?thesis using False by simp
    qed
    finally show ?thesis .
  qed
qed

lemma be_word_bytes32_be: "be_word (bytes32_be w) = w"
proof (rule bit_eqI)
  fix n
  show "bit (be_word (bytes32_be w)) n = bit w n"
  proof (cases "n < 256")
    case False
    then show ?thesis
      using bit_imp_le_length[of w n] bit_imp_le_length[of "be_word (bytes32_be w)" n] by auto
  next
    case True
    then have i: "31 - n div 8 < 32" "n div 8 \<le> 31" by simp_all
    have "bit (be_word (bytes32_be w)) n \<longleftrightarrow> bit (bytes32_be w ! (31 - n div 8)) (n mod 8)"
      using True by (simp add: be_word_def bit_be_word_step length_bytes32_be)
    also have "bytes32_be w ! (31 - n div 8) = ucast (drop_bit (8 * (n div 8)) w)"
      using i by (simp add: bytes32_be_def)
    also have "bit (ucast (drop_bit (8 * (n div 8)) w) :: 8 word) (n mod 8) \<longleftrightarrow> bit w n"
      by (simp add: bit_ucast_iff bit_drop_bit_eq)
    finally show ?thesis .
  qed
qed

lemma bytes32_be_inj: "bytes32_be w = bytes32_be w' \<Longrightarrow> w = w'"
  by (metis be_word_bytes32_be)

lemma abi_encode_inj: "abi_encode ws = abi_encode ws' \<Longrightarrow> ws = ws'"
proof (induction ws arbitrary: ws')
  case Nil
  then show ?case
    by (cases ws') (auto simp add: abi_encode_def bytes32_be_def)
next
  case (Cons w ws)
  show ?case
  proof (cases ws')
    case Nil
    then show ?thesis using Cons.prems by (auto simp add: abi_encode_def bytes32_be_def)
  next
    case (Cons w' ws'')
    then have "bytes32_be w @ abi_encode ws = bytes32_be w' @ abi_encode ws''"
      using Cons.prems by (simp add: abi_encode_def)
    then have "bytes32_be w = bytes32_be w'" "abi_encode ws = abi_encode ws''"
      by (simp_all add: length_bytes32_be)
    then show ?thesis using Cons.IH[of ws''] bytes32_be_inj Cons by simp
  qed
qed

lemma demo_keccak_abi_encode:
  "demo_keccak (abi_encode (ws @ [w])) = w"
proof -
  have "abi_encode (ws @ [w]) = abi_encode ws @ bytes32_be w"
    by (simp add: abi_encode_def)
  then show ?thesis
    by (simp add: demo_keccak_def length_bytes32_be be_word_bytes32_be)
qed

lemma computeRuleHash_demo:
  assumes "atoms ap \<noteq> []"
  shows "computeRuleHash demo_env ap action = last (atoms ap)"
proof -
  have "abi_encode_array (atoms ap) =
          abi_encode ((32 # of_nat (length (atoms ap)) # butlast (atoms ap)) @ [last (atoms ap)])"
    using assms by (simp add: abi_encode_array_def)
  then have "demo_keccak (abi_encode_array (atoms ap)) = last (atoms ap)"
    by (simp only: demo_keccak_abi_encode)
  moreover have "demo_keccak (abi_encode [RULE_HASH, action, abi_bool (selfSignRequired ap), h]) = h"
    for h using demo_keccak_abi_encode[of "[RULE_HASH, action, abi_bool (selfSignRequired ap)]" h]
    by simp
  ultimately show ?thesis by (simp add: computeRuleHash_def demo_env_simps Let_def)
qed

section \<open>Equal rule hashes\<close>

lemma abi_encode_array_inj: "abi_encode_array xs = abi_encode_array ys \<Longrightarrow> xs = ys"
  using abi_encode_inj[of "32 # of_nat (length xs) # xs" "32 # of_nat (length ys) # ys"]
  by (simp add: abi_encode_array_def)

lemma abi_bool_inj: "abi_bool b = abi_bool c \<Longrightarrow> b = c"
  by (simp add: abi_bool_def split: if_splits)

lemma keccak_eq_iff: "keccak256 env x = keccak256 env y \<longleftrightarrow> x = y \<or> collides env x y"
  by (auto simp add: collides_def)

lemma computeRuleHash_eq_iff:
  "computeRuleHash env ap action = computeRuleHash env ap' action'
     \<longleftrightarrow> (action = action' \<and> selfSignRequired ap = selfSignRequired ap'
            \<and> (atoms ap = atoms ap'
                \<or> collides env (abi_encode_array (atoms ap)) (abi_encode_array (atoms ap'))))
         \<or> collides env
              (abi_encode [RULE_HASH, action, abi_bool (selfSignRequired ap),
                           keccak256 env (abi_encode_array (atoms ap))])
              (abi_encode [RULE_HASH, action', abi_bool (selfSignRequired ap'),
                           keccak256 env (abi_encode_array (atoms ap'))])"
proof -
  let ?I = "abi_encode_array (atoms ap)" and ?I' = "abi_encode_array (atoms ap')"
  let ?E = "abi_encode [RULE_HASH, action, abi_bool (selfSignRequired ap), keccak256 env ?I]"
  let ?E' = "abi_encode [RULE_HASH, action', abi_bool (selfSignRequired ap'), keccak256 env ?I']"
  have "computeRuleHash env ap action = computeRuleHash env ap' action'
          \<longleftrightarrow> ?E = ?E' \<or> collides env ?E ?E'"
    by (simp add: computeRuleHash_def Let_def keccak_eq_iff)
  moreover have "?E = ?E' \<longleftrightarrow> action = action' \<and> selfSignRequired ap = selfSignRequired ap'
                    \<and> keccak256 env ?I = keccak256 env ?I'"
    using abi_encode_inj[of "[RULE_HASH, action, abi_bool (selfSignRequired ap), keccak256 env ?I]"
             "[RULE_HASH, action', abi_bool (selfSignRequired ap'), keccak256 env ?I']"]
          abi_bool_inj[of "selfSignRequired ap" "selfSignRequired ap'"]
    by auto
  moreover have "keccak256 env ?I = keccak256 env ?I' \<longleftrightarrow> atoms ap = atoms ap' \<or> collides env ?I ?I'"
    using abi_encode_array_inj[of "atoms ap" "atoms ap'"] by (auto simp add: collides_def)
  ultimately show ?thesis by blast
qed

lemma sort_mset_eq: "mset xs = mset ys \<Longrightarrow> sort xs = sort (ys :: 'b::linorder list)"
  by (metis mset_sort sorted_sort properties_for_sort)


lemma demo_keccak_abi_encode_array:
  "xs \<noteq> [] \<Longrightarrow> demo_keccak (abi_encode_array xs) = last xs"
proof -
  assume "xs \<noteq> []"
  then have "abi_encode_array xs = abi_encode ((32 # of_nat (length xs) # butlast xs) @ [last xs])"
    by (simp add: abi_encode_array_def)
  then show ?thesis by (simp only: demo_keccak_abi_encode)
qed

lemma demo_keccak_rule_struct:
  "demo_keccak (abi_encode [t, action, b, h]) = h"
  using demo_keccak_abi_encode[of "[t, action, b]" h] by simp

lemma demo_atoms_ordered: "demo_atom_A < demo_atom_B"
  by (simp add: demo_atom_A_def demo_atom_B_def)

lemma demo_rule_body: "getNormEncodedRuleBody (\<lambda>a. a) demo_rule = [demo_atom_A, demo_atom_B]"
proof -
  have "\<not> demo_atom_B \<le> demo_atom_A" using demo_atoms_ordered by simp
  then show ?thesis by (simp add: getNormEncodedRuleBody_def demo_rule_def)
qed

section \<open>The claims\<close>

text \<open>
  C1. The claim: an \<^verbatim>\<open>addRole\<close> or \<^verbatim>\<open>removeRole\<close> whose approval names a base block
  outside the look-back window fails with the stale-base-block error, and one with more
  than \<^verbatim>\<open>MAX_NUM_SIGNERS\<close> signatures with the too-many-signers error. The two functions
  do not carry the modifier \<^verbatim>\<open>onlyValidApprovals\<close>: on the example chart the base block
  of the approval is stale, yet the role \<open>R\<close> is added and the role \<open>B\<close> is removed; the
  result of both functions is the same in every block context; and the approval with 101
  signatures, which the modifier refuses, adds the role \<open>R\<close>.
\<close>

theorem admin_calls_accept_stale_base_block:
  "isValidBaseBlock demo_env (baseBlockHash demo_approval) = Inr False
   \<and> addRole demo_env demo_chart demo_approval demo_role_R = Inr demo_chart_R
   \<and> removeRole demo_env demo_chart demo_approval 0xB = Inr demo_chart_A
   \<and> addRole (env\<lparr>blockNumber := n, blockhash := bh\<rparr>) st ap rd = addRole env st ap rd
   \<and> removeRole (env\<lparr>blockNumber := n, blockhash := bh\<rparr>) st ap rid
        = removeRole env st ap rid
   \<and> length (sig demo_crowd_approval) = 101
   \<and> onlyValidApprovals demo_env demo_crowd_approval = Inl TooManySigners
   \<and> (case addRole demo_env demo_crowd_chart demo_crowd_approval demo_role_R of
         Inl e \<Rightarrow> False | Inr st' \<Rightarrow> roleId2Flag st' 0xC = 4 \<and> activeRoleFlags st' = 7)"
proof -
  have "length (sig demo_crowd_approval) = 101" by (simp add: demo_crowd_simps)
  then show ?thesis
    using demo_stale demo_add_R demo_remove_B admin_calls_ignore_block
      demo_crowd_rejected_by_modifier demo_crowd_accepted
    by simp
qed

text \<open>
  C2. The claim: a successful \<^verbatim>\<open>addRole\<close> keeps the role array reverse-topological. The
  new role is placed at the index of its first parent whatever the position of its
  juniors: on the example chart, with array \<open>[A, B]\<close>, adding \<open>R\<close> with senior \<open>A\<close> and
  junior \<open>B\<close> gives the array \<open>[R, A, B]\<close>, where the junior \<open>B\<close> stands after \<open>R\<close>.
\<close>

theorem addRole_breaks_reverse_topological_order:
  "reverseTopological demo_chart
   \<and> addRole demo_env demo_chart demo_approval demo_role_R = Inr demo_chart_R
   \<and> map (roleIdx2Flag demo_chart_R) [0, 1, 2] = [4, 1, 2]
   \<and> roleFlag2Mask demo_chart_R 4 = 6
   \<and> \<not> reverseTopological demo_chart_R"
proof -
  have "reverseTopological demo_chart"
    by (simp add: reverseTopological_def demo_chart_def upt_conv_Cons)
  moreover have "\<not> reverseTopological demo_chart_R"
    by (simp add: reverseTopological_def demo_chart_R_def upt_conv_Cons)
  moreover have "map (roleIdx2Flag demo_chart_R) [0, 1, 2] = [4, 1, 2]"
    and "roleFlag2Mask demo_chart_R 4 = 6"
    by (simp_all add: demo_chart_R_def)
  ultimately show ?thesis using demo_add_R by simp
qed

theorem addRole_breaks_reverse_topological_order_witness:
  "(0 :: nat) \<noteq> 2
   \<and> roleFlag2Mask demo_chart_R (roleIdx2Flag demo_chart_R (of_nat 0))
         AND roleIdx2Flag demo_chart_R (of_nat 2) = roleIdx2Flag demo_chart_R (of_nat 2)
   \<and> \<not> (2 :: nat) < 0
   \<and> reverseTopological demo_chart
   \<and> \<not> reverseTopological demo_chart_R"
  using addRole_breaks_reverse_topological_order by (simp add: demo_chart_R_def)

text \<open>
  C3. The claim: a senior or junior bit that is not the flag of an active role is
  rejected, in particular the flag of a removed role. \<^verbatim>\<open>_requireValidRoleDef\<close> compares
  the bits with the complement of the free flags, and a removed flag is neither active
  nor free: after \<open>B\<close> (flag 2) is removed from the example chart, flag 2 is not active
  and both a role naming it as senior and a role naming it as junior are added.
\<close>

theorem addRole_accepts_removed_flag_as_senior_and_junior:
  "removeRole demo_env demo_chart demo_approval 0xB = Inr demo_chart_A
   \<and> activeRoleFlags demo_chart_A AND 2 = 0
   \<and> (case addRole demo_env demo_chart_A demo_approval demo_role_S of
         Inl e \<Rightarrow> False | Inr st \<Rightarrow> roleId2Flag st 0xC = 4 \<and> activeRoleFlags st = 5)
   \<and> (case addRole demo_env demo_chart_A demo_approval demo_role_J of
         Inl e \<Rightarrow> False | Inr st \<Rightarrow> roleId2Flag st 0xC = 4 \<and> roleFlag2JuniorMask st 4 = 2)"
proof -
  have "activeRoleFlags demo_chart_A AND 2 = 0" by (simp add: demo_chart_A_def)
  moreover have "case addRole demo_env demo_chart_A demo_approval demo_role_S of
         Inl e \<Rightarrow> False | Inr st \<Rightarrow> roleId2Flag st 0xC = 4 \<and> activeRoleFlags st = 5"
    by (simp add: eval_simps demo_chart_A_def demo_role_S_def)
  moreover have "case addRole demo_env demo_chart_A demo_approval demo_role_J of
         Inl e \<Rightarrow> False | Inr st \<Rightarrow> roleId2Flag st 0xC = 4 \<and> roleFlag2JuniorMask st 4 = 2"
    by (simp add: eval_simps demo_chart_A_def demo_role_J_def)
  ultimately show ?thesis using demo_remove_B by simp
qed

text \<open>
  C4, counterexample to the claim as stated. The claim: \<^verbatim>\<open>_computeRuleHash\<close> gives the
  same hash for the atoms and for any permutation of them. The function hashes the atoms
  in the order of the approval, without sorting: with the stand-in hash the two orders of
  the atoms \<open>A\<close> and \<open>B\<close> give different rule hashes.
\<close>

theorem rule_hash_depends_on_atom_order:
  "mset [demo_atom_B, demo_atom_A] = mset [demo_atom_A, demo_atom_B]
   \<and> computeRuleHash demo_env (demo_approval\<lparr>atoms := [demo_atom_B, demo_atom_A]\<rparr>) ADMIN_HASH
       \<noteq> computeRuleHash demo_env (demo_approval\<lparr>atoms := [demo_atom_A, demo_atom_B]\<rparr>) ADMIN_HASH"
  by (simp add: computeRuleHash_demo demo_atom_A_def demo_atom_B_def)

text \<open>
  C4, as the code has it. \<^verbatim>\<open>_computeRuleHash\<close> hashes the atoms in the order in which the
  approval supplies them. Two approvals and actions get the same rule hash exactly when
  the actions, the self-sign flags and the atom lists, in their order, are the same, or
  the hash function collides on the encodings of the two atom arrays or of the two rule
  structures. The canonical order is made by the compiler only: its rule hash is the same
  for every permutation of the atoms of the rule. For an approval that carries the
  self-sign flag of the rule, and the action that is the hash of the type string of the
  rule (what the comments of the contracts say of the constants \<^verbatim>\<open>GRANT_HASH\<close>,
  \<^verbatim>\<open>REVOKE_HASH\<close> and \<^verbatim>\<open>ADMIN_HASH\<close>), the hash of the contract equals the hash of the
  compiler exactly when the approval supplies the atoms in ascending order, or the hash
  function collides on those encodings.
\<close>

theorem rule_hash_canonical_only_off_chain:
  "(computeRuleHash env ap action = computeRuleHash env ap' action'
      \<longleftrightarrow> (action = action' \<and> selfSignRequired ap = selfSignRequired ap'
             \<and> (atoms ap = atoms ap'
                 \<or> collides env (abi_encode_array (atoms ap)) (abi_encode_array (atoms ap'))))
          \<or> collides env
               (abi_encode [RULE_HASH, action, abi_bool (selfSignRequired ap),
                            keccak256 env (abi_encode_array (atoms ap))])
               (abi_encode [RULE_HASH, action', abi_bool (selfSignRequired ap'),
                            keccak256 env (abi_encode_array (atoms ap'))]))
   \<and> (mset (rule_required rd) = mset (rule_required rd') \<and> rule_type rd = rule_type rd'
        \<and> rule_selfSignRequired rd = rule_selfSignRequired rd'
      \<longrightarrow> compiler_computeRuleHash env enc rd = compiler_computeRuleHash env enc rd')
   \<and> (selfSignRequired ap = rule_selfSignRequired rd
      \<longrightarrow> (computeRuleHash env ap (keccak256 env (map of_char (toLowerCase (rule_type rd))))
              = compiler_computeRuleHash env enc rd
            \<longleftrightarrow> atoms ap = getNormEncodedRuleBody enc rd
                \<or> collides env (abi_encode_array (atoms ap))
                      (abi_encode_array (getNormEncodedRuleBody enc rd))
                \<or> collides env
                     (abi_encode [RULE_HASH, keccak256 env (map of_char (toLowerCase (rule_type rd))),
                                  abi_bool (selfSignRequired ap),
                                  keccak256 env (abi_encode_array (atoms ap))])
                     (abi_encode [RULE_HASH, keccak256 env (map of_char (toLowerCase (rule_type rd))),
                                  abi_bool (selfSignRequired ap),
                                  keccak256 env (abi_encode_array (getNormEncodedRuleBody enc rd))])))"
proof (intro conjI impI)
  show "computeRuleHash env ap action = computeRuleHash env ap' action'
      \<longleftrightarrow> (action = action' \<and> selfSignRequired ap = selfSignRequired ap'
             \<and> (atoms ap = atoms ap'
                 \<or> collides env (abi_encode_array (atoms ap)) (abi_encode_array (atoms ap'))))
          \<or> collides env
               (abi_encode [RULE_HASH, action, abi_bool (selfSignRequired ap),
                            keccak256 env (abi_encode_array (atoms ap))])
               (abi_encode [RULE_HASH, action', abi_bool (selfSignRequired ap'),
                            keccak256 env (abi_encode_array (atoms ap'))])"
    by (rule computeRuleHash_eq_iff)
next
  assume "mset (rule_required rd) = mset (rule_required rd') \<and> rule_type rd = rule_type rd'
        \<and> rule_selfSignRequired rd = rule_selfSignRequired rd'"
  moreover from this have "mset (map enc (rule_required rd)) = mset (map enc (rule_required rd'))"
    by (metis mset_map)
  then have "getNormEncodedRuleBody enc rd = getNormEncodedRuleBody enc rd'"
    unfolding getNormEncodedRuleBody_def by (rule sort_mset_eq)
  ultimately show "compiler_computeRuleHash env enc rd = compiler_computeRuleHash env enc rd'"
    by (simp add: compiler_computeRuleHash_def)
next
  assume s: "selfSignRequired ap = rule_selfSignRequired rd"
  let ?t = "keccak256 env (map of_char (toLowerCase (rule_type rd)))"
  let ?ap' = "ap\<lparr>atoms := getNormEncodedRuleBody enc rd\<rparr>"
  have "compiler_computeRuleHash env enc rd = computeRuleHash env ?ap' ?t"
    using s by (simp add: compiler_computeRuleHash_def computeRuleHash_def Let_def)
  then show "computeRuleHash env ap ?t = compiler_computeRuleHash env enc rd
            \<longleftrightarrow> atoms ap = getNormEncodedRuleBody enc rd
                \<or> collides env (abi_encode_array (atoms ap))
                      (abi_encode_array (getNormEncodedRuleBody enc rd))
                \<or> collides env
                     (abi_encode [RULE_HASH, ?t, abi_bool (selfSignRequired ap),
                                  keccak256 env (abi_encode_array (atoms ap))])
                     (abi_encode [RULE_HASH, ?t, abi_bool (selfSignRequired ap),
                                  keccak256 env (abi_encode_array (getNormEncodedRuleBody enc rd))])"
    using computeRuleHash_eq_iff[of env ap ?t ?ap' ?t] by auto
qed

theorem rule_hash_canonical_only_off_chain_witness:
  "computeRuleHash demo_env (demo_approval\<lparr>atoms := [demo_atom_B, demo_atom_A]\<rparr>) ADMIN_HASH
     \<noteq> computeRuleHash demo_env (demo_approval\<lparr>atoms := [demo_atom_A, demo_atom_B]\<rparr>) ADMIN_HASH
   \<and> mset (rule_required demo_rule) = mset [demo_atom_A, demo_atom_B]
   \<and> compiler_computeRuleHash demo_env (\<lambda>a. a) demo_rule
       = compiler_computeRuleHash demo_env (\<lambda>a. a)
           (demo_rule\<lparr>rule_required := [demo_atom_A, demo_atom_B]\<rparr>)
   \<and> getNormEncodedRuleBody (\<lambda>a. a) demo_rule = [demo_atom_A, demo_atom_B]
   \<and> computeRuleHash demo_env (demo_approval\<lparr>atoms := [demo_atom_A, demo_atom_B]\<rparr>)
         (keccak256 demo_env (map of_char (toLowerCase (rule_type demo_rule))))
       = compiler_computeRuleHash demo_env (\<lambda>a. a) demo_rule
   \<and> computeRuleHash demo_env (demo_approval\<lparr>atoms := [demo_atom_B, demo_atom_A]\<rparr>)
         (keccak256 demo_env (map of_char (toLowerCase (rule_type demo_rule))))
       \<noteq> compiler_computeRuleHash demo_env (\<lambda>a. a) demo_rule
   \<and> computeRuleHash demo_env_const (demo_approval\<lparr>atoms := [demo_atom_B, demo_atom_A]\<rparr>)
         ADMIN_HASH
       = computeRuleHash demo_env_const (demo_approval\<lparr>atoms := [demo_atom_A, demo_atom_B]\<rparr>)
           ADMIN_HASH
   \<and> collides demo_env_const (abi_encode_array [demo_atom_B, demo_atom_A])
        (abi_encode_array [demo_atom_A, demo_atom_B])"
proof -
  let ?BA = "demo_approval\<lparr>atoms := [demo_atom_B, demo_atom_A]\<rparr>"
  let ?AB = "demo_approval\<lparr>atoms := [demo_atom_A, demo_atom_B]\<rparr>"
  let ?rd' = "demo_rule\<lparr>rule_required := [demo_atom_A, demo_atom_B]\<rparr>"
  let ?t = "keccak256 demo_env (map of_char (toLowerCase (rule_type demo_rule)))"
  have ne: "demo_atom_B \<noteq> demo_atom_A" using demo_atoms_ordered by simp
  have nc: "\<not> collides demo_env (abi_encode_array [demo_atom_B, demo_atom_A])
                 (abi_encode_array [demo_atom_A, demo_atom_B])"
    using ne by (simp add: collides_def demo_env_simps demo_keccak_abi_encode_array)
  have nc': "\<not> collides demo_env
                 (abi_encode [RULE_HASH, action, abi_bool (selfSignRequired ?BA),
                              keccak256 demo_env (abi_encode_array (atoms ?BA))])
                 (abi_encode [RULE_HASH, action, abi_bool (selfSignRequired ?AB),
                              keccak256 demo_env (abi_encode_array (atoms ?AB))])" for action
    using ne
    by (simp add: collides_def demo_env_simps demo_keccak_abi_encode_array
          demo_keccak_rule_struct)
  have 1: "computeRuleHash demo_env ?BA ADMIN_HASH \<noteq> computeRuleHash demo_env ?AB ADMIN_HASH"
    using rule_hash_canonical_only_off_chain[of demo_env ?BA ADMIN_HASH ?AB ADMIN_HASH
            demo_rule demo_rule "\<lambda>a. a", THEN conjunct1]
          nc nc'[of ADMIN_HASH] ne by simp
  have m: "mset (rule_required demo_rule) = mset [demo_atom_A, demo_atom_B]"
    by (simp add: demo_rule_def)
  have 2: "compiler_computeRuleHash demo_env (\<lambda>a. a) demo_rule
             = compiler_computeRuleHash demo_env (\<lambda>a. a) ?rd'"
    using rule_hash_canonical_only_off_chain[of demo_env ?BA ADMIN_HASH ?AB ADMIN_HASH
            demo_rule ?rd' "\<lambda>a. a", THEN conjunct2, THEN conjunct1] m
    by simp
  have s: "selfSignRequired ?AB = rule_selfSignRequired demo_rule"
          "selfSignRequired ?BA = rule_selfSignRequired demo_rule"
    by (simp_all add: demo_approval_simps demo_rule_def)
  have 3: "computeRuleHash demo_env ?AB ?t = compiler_computeRuleHash demo_env (\<lambda>a. a) demo_rule"
    using rule_hash_canonical_only_off_chain[of demo_env ?AB ADMIN_HASH ?AB ADMIN_HASH
            demo_rule demo_rule "\<lambda>a. a", THEN conjunct2, THEN conjunct2] s(1) demo_rule_body
    by simp
  have 4: "computeRuleHash demo_env ?BA ?t \<noteq> compiler_computeRuleHash demo_env (\<lambda>a. a) demo_rule"
    using rule_hash_canonical_only_off_chain[of demo_env ?BA ADMIN_HASH ?BA ADMIN_HASH
            demo_rule demo_rule "\<lambda>a. a", THEN conjunct2, THEN conjunct2]
          s(2) demo_rule_body nc nc'[of ?t] ne
    by simp
  have 5: "computeRuleHash demo_env_const ?BA ADMIN_HASH
             = computeRuleHash demo_env_const ?AB ADMIN_HASH"
    by (simp add: computeRuleHash_def demo_env_const_def)
  have 6: "collides demo_env_const (abi_encode_array [demo_atom_B, demo_atom_A])
             (abi_encode_array [demo_atom_A, demo_atom_B])"
    using abi_encode_array_inj[of "[demo_atom_B, demo_atom_A]" "[demo_atom_A, demo_atom_B]"] ne
    by (auto simp add: collides_def demo_env_const_def)
  from 1 m 2 demo_rule_body 3 4 5 6 show ?thesis by blast
qed

text \<open>
  C5, as the code has it. In a chart whose flag bookkeeping is well formed, a flag that
  is active at some point of a sequence of transactions is not free after any further
  transactions; \<^verbatim>\<open>removeRole\<close> leaves the free flags unchanged; a later \<^verbatim>\<open>addRole\<close> asking
  for that flag fails, with the flag-taken error when the approval does not demand a
  self-sign and the flag is a single bit; and a flag that is still free passes the
  flag-taken check. The claim says that every such \<^verbatim>\<open>addRole\<close> fails with the
  flag-taken error; an approval that demands a self-sign is refused earlier, with another
  error (the counterexample below).
\<close>

theorem once_active_flag_is_never_free_again:
  assumes "flags_wf st0" and "flag AND activeRoleFlags (run st0 txs1) = flag"
  shows "flag AND freeRoleFlags (run st0 (txs1 @ txs2)) = 0
     \<and> (removeRole env' st ap' rid = Inr st' \<longrightarrow> freeRoleFlags st' = freeRoleFlags st)
     \<and> (flag \<noteq> 0 \<and> roleFlag rd = flag \<longrightarrow>
          (\<exists>e. addRole env (run st0 (txs1 @ txs2)) ap rd = Inl e
               \<and> (\<not> selfSignRequired ap \<and> flag AND (flag - 1) = 0 \<longrightarrow> e = RoleFlagTaken)))
     \<and> (roleFlag rd' AND freeRoleFlags st \<noteq> 0 \<longrightarrow> requireValidRoleDef st rd' \<noteq> Inl RoleFlagTaken)"
proof -
  have "flags_wf (run st0 txs1)" using assms(1) by (rule run_flags_wf)
  then have "activeRoleFlags (run st0 txs1) AND freeRoleFlags (run st0 txs1) = 0"
    by (simp add: flags_wf_def)
  then have "flag AND freeRoleFlags (run st0 txs1) = 0"
    using assms(2) unfolding and_zero_bits and_subset_bits by blast
  then have nf: "flag AND freeRoleFlags (run st0 (txs1 @ txs2)) = 0"
    unfolding run_append by (rule run_free_shrinks)
  moreover have "removeRole env' st ap' rid = Inr st' \<longrightarrow> freeRoleFlags st' = freeRoleFlags st"
    using removeRole_Inr by blast
  moreover have "flag \<noteq> 0 \<and> roleFlag rd = flag \<longrightarrow>
          (\<exists>e. addRole env (run st0 (txs1 @ txs2)) ap rd = Inl e
               \<and> (\<not> selfSignRequired ap \<and> flag AND (flag - 1) = 0 \<longrightarrow> e = RoleFlagTaken))"
    using addRole_taken[OF nf] by blast
  moreover have "roleFlag rd' AND freeRoleFlags st \<noteq> 0 \<longrightarrow>
                 requireValidRoleDef st rd' \<noteq> Inl RoleFlagTaken"
    by (auto simp add: requireValidRoleDef_def)
  ultimately show ?thesis by blast
qed

theorem once_active_flag_is_never_free_again_witness:
  "flags_wf demo_chart
   \<and> 2 AND activeRoleFlags (run demo_chart []) = 2
   \<and> run demo_chart ([] @ [(demo_env, RemoveRole demo_approval 0xB)]) = demo_chart_A
   \<and> 2 AND freeRoleFlags demo_chart_A = 0
   \<and> freeRoleFlags demo_chart_A = freeRoleFlags demo_chart
   \<and> addRole demo_env demo_chart_A demo_approval demo_role_reuse = Inl RoleFlagTaken
   \<and> requireValidRoleDef demo_chart demo_role_R \<noteq> Inl RoleFlagTaken"
proof -
  have act: "2 AND activeRoleFlags (run demo_chart []) = 2"
    by (simp add: run_def demo_chart_def)
  have r: "run demo_chart ([] @ [(demo_env, RemoveRole demo_approval 0xB)]) = demo_chart_A"
    by (simp add: run_def transact_def demo_remove_B)
  have f: "roleFlag demo_role_reuse = 2" "(2 :: uint256) \<noteq> 0" "(2 :: uint256) AND (2 - 1) = 0"
    "\<not> selfSignRequired demo_approval" "roleFlag demo_role_R AND freeRoleFlags demo_chart \<noteq> 0"
    by (simp_all add: demo_role_reuse_def demo_approval_simps demo_role_R_def demo_chart_def)
  from once_active_flag_is_never_free_again[OF demo_flags_wf act,
      of "[(demo_env, RemoveRole demo_approval 0xB)]" demo_env demo_chart demo_approval "0xB"
         demo_chart_A demo_role_reuse demo_env demo_approval demo_role_R]
  show ?thesis using demo_flags_wf act r f demo_remove_B by auto
qed

text \<open>
  C5, counterexample to the claim as stated: flag 2 was active and its role removed; an
  \<^verbatim>\<open>addRole\<close> asking for flag 2 with an approval that demands a self-sign fails with the
  self-sign error, not with the flag-taken error.
\<close>

theorem reused_flag_with_self_sign_fails_differently:
  "2 AND activeRoleFlags demo_chart = 2
   \<and> removeRole demo_env demo_chart demo_approval 0xB = Inr demo_chart_A
   \<and> addRole demo_env demo_chart_A (demo_approval\<lparr>selfSignRequired := True\<rparr>) demo_role_reuse
       = Inl SelfSignNotAllowed"
proof -
  have "2 AND activeRoleFlags demo_chart = 2" by (simp add: demo_chart_def)
  moreover have "addRole demo_env demo_chart_A (demo_approval\<lparr>selfSignRequired := True\<rparr>)
                   demo_role_reuse = Inl SelfSignNotAllowed"
    by (simp add: addRole_def)
  ultimately show ?thesis using demo_remove_B by simp
qed

text \<open>
  C6. The claim: mask consistency holds in every reachable state and is preserved by
  \<^verbatim>\<open>addRole\<close> and \<^verbatim>\<open>removeRole\<close>. The rebuild in \<^verbatim>\<open>removeRole\<close> reads the masks of the
  juniors as they are stored when the senior is visited; a junior that stands later in
  the role array has not been rebuilt yet. The chart \<open>demo_chart_RC\<close> is reached from the
  deployed example chart by two additions and is mask consistent; removing \<open>C\<close> from it
  leaves the flag of \<open>C\<close> in the mask of \<open>R\<close>, whose only junior \<open>B\<close> no longer has it.
\<close>

theorem removeRole_breaks_mask_consistency:
  "maskConsistent demo_chart
   \<and> run demo_chart [(demo_env, AddRole demo_approval demo_role_R),
                      (demo_env, AddRole demo_approval demo_role_C)] = demo_chart_RC
   \<and> maskConsistent demo_chart_RC
   \<and> removeRole demo_env demo_chart_RC demo_approval 0xD = Inr demo_chart_RC_removed
   \<and> roleFlag2Mask demo_chart_RC_removed 4 = 14
   \<and> roleFlag2JuniorMask demo_chart_RC_removed 4 = 2
   \<and> roleFlag2Mask demo_chart_RC_removed 2 = 2
   \<and> \<not> maskConsistent demo_chart_RC_removed"
proof -
  have "roleFlag2Mask demo_chart_RC_removed 4 = 14"
    and "roleFlag2JuniorMask demo_chart_RC_removed 4 = 2"
    and "roleFlag2Mask demo_chart_RC_removed 2 = 2"
    by (simp_all add: demo_chart_RC_removed_def)
  then show ?thesis
    using demo_consistent demo_reach_RC demo_consistent_RC demo_remove_C demo_inconsistent
    by simp
qed

text \<open>
  C7. \<^verbatim>\<open>hasRole\<close> fails with the unknown-role error exactly when the role id has no
  flag; otherwise it returns true iff the user's active flags contain the required
  flag, or they are non-zero and their structure mask contains it. A user who strictly
  has a role has the role.
\<close>

theorem hasRole_characterisation:
  "hasRole st u r =
     (if roleId2Flag st r = 0 then Inl UnknownRole
      else Inr ((user2Roles st u AND activeRoleFlags st) AND roleId2Flag st r = roleId2Flag st r
                \<or> (user2Roles st u AND activeRoleFlags st \<noteq> 0
                    \<and> buildStructureMask (roleFlag2Mask st) (user2Roles st u AND activeRoleFlags st)
                          AND roleId2Flag st r = roleId2Flag st r)))
   \<and> (hasRole st u r = Inl UnknownRole \<longleftrightarrow> roleId2Flag st r = 0)
   \<and> (strictlyHasRole st u r = Inr True \<longrightarrow> hasRole st u r = Inr True)"
  by (auto simp add: hasRole_def strictlyHasRole_def Let_def)

theorem hasRole_characterisation_witness:
  "strictlyHasRole demo_chart 0x51 0xA = Inr True
   \<and> hasRole demo_chart 0x51 0xA = Inr True
   \<and> hasRole demo_chart_R 0x51 0xB = Inr True
   \<and> strictlyHasRole demo_chart_R 0x51 0xB = Inr False
   \<and> hasRole demo_chart 0x51 0xC = Inl UnknownRole"
proof -
  have s: "strictlyHasRole demo_chart 0x51 0xA = Inr True"
    by (simp add: strictlyHasRole_def demo_chart_def)
  have "hasRole demo_chart 0x51 0xA = Inr True"
    using hasRole_characterisation[of demo_chart "0x51" "0xA"] s by blast
  moreover have "hasRole demo_chart_R 0x51 0xB = Inr True"
    using hasRole_characterisation[of demo_chart_R "0x51" "0xB"]
    by (simp add: eval_simps demo_chart_R_def)
  moreover have "strictlyHasRole demo_chart_R 0x51 0xB = Inr False"
    by (simp add: strictlyHasRole_def demo_chart_R_def)
  moreover have "hasRole demo_chart 0x51 0xC = Inl UnknownRole"
    using hasRole_characterisation[of demo_chart "0x51" "0xC"]
    by (simp add: demo_chart_def)
  ultimately show ?thesis using s by simp
qed

text \<open>
  C8. For every 256-bit \<open>flags\<close>, \<^verbatim>\<open>_buildStructureMask\<close> terminates (the function is
  total, by the termination proof above) and returns exactly the bitwise OR of
  \<^verbatim>\<open>roleFlag2Mask[2^i]\<close> over the bit positions \<open>i\<close> set in \<open>flags\<close>; and for every
  non-zero \<open>msk\<close>, \<^verbatim>\<open>_getPure\<close> returns a non-zero power of two that is a bit of \<open>msk\<close>.
\<close>

theorem buildStructureMask_is_or_of_masks:
  "buildStructureMask r2m flags =
     fold (\<lambda>i acc. acc OR r2m (2 ^ i)) (filter (bit flags) [0..<256]) 0
   \<and> (msk \<noteq> 0 \<longrightarrow>
        (\<exists>n<256. getPure msk = 2 ^ n) \<and> getPure msk AND msk = getPure msk \<and> getPure msk \<noteq> 0)"
  using buildStructureMask_fold getPure_is_bit by blast

theorem buildStructureMask_is_or_of_masks_witness:
  "buildStructureMask (\<lambda>f. f) 5 =
     fold (\<lambda>i acc. acc OR 2 ^ i) (filter (bit (5 :: uint256)) [0..<256]) 0
   \<and> buildStructureMask (\<lambda>f. f) 5 = 5
   \<and> (6 :: uint256) \<noteq> 0
   \<and> (\<exists>n<256. getPure 6 = 2 ^ n) \<and> getPure 6 AND 6 = getPure 6 \<and> getPure 6 \<noteq> 0
   \<and> getPure 6 = 4"
proof -
  have h: "(6 :: uint256) \<noteq> 0" by simp
  have e: "buildStructureMask (\<lambda>f. f) 5 = 5" "getPure 6 = 4"
    by (simp_all add: eval_simps)
  from buildStructureMask_is_or_of_masks[of "\<lambda>f. f" 5 6] h e show ?thesis by blast
qed

text \<open>
  C9. Whenever \<open>base * perc\<close> stays below \<open>2^256\<close>,
  \<^verbatim>\<open>_getAbsNumberOfRequiredSigners\<close> returns the ceiling of \<open>base * perc / 100\<close> clamped
  to the range from 1 to \<^verbatim>\<open>MAX_NUM_SIGNERS\<close> = 100.
\<close>

theorem getAbsNumberOfRequiredSigners_clamped_ceiling:
  assumes "unat base * unat perc < 2 ^ 256"
  shows "getAbsNumberOfRequiredSigners base perc =
           Inr (of_nat (min 100 (max 1 (nat \<lceil>real (unat base * unat perc) / 100\<rceil>))))"
proof -
  define n where "n = unat base * unat perc"
  define req :: uint256 where "req = base * ucast perc"
  define c where "c = n div 100 + (if n mod 100 > 0 then 1 else 0)"
  define req2 :: uint256 where "req2 = (req div 100) + (if req mod 100 > 0 then 1 else 0)"
  define req3 :: uint256 where
    "req3 = (if req2 > 100 then 100 else if req2 < 1 then 1 else req2)"
  have n256: "n < 2 ^ 256" using assms by (simp add: n_def)
  have up: "unat (ucast perc :: uint256) = unat perc"
  proof -
    have "unat perc < 2 ^ 8" using unsigned_less[of perc] by simp
    then have "unat perc < 2 ^ 256" by simp
    then show ?thesis by (simp add: unsigned_ucast_eq take_bit_nat_eq_self)
  qed
  have req: "unat req = n"
    using assms unat_mult_lem[of base "ucast perc"] by (simp add: req_def n_def up)
  have d: "unat (req div 100) = n div 100" by (simp add: unat_div req)
  have m: "unat (req mod 100) = n mod 100" by (simp add: unat_mod req)
  have m0: "(req mod 100 > 0) = (n mod 100 > 0)"
    using m by (simp add: word_less_nat_alt)
  have cb: "c < 2 ^ 256" using n256 by (auto simp add: c_def)
  have req2: "unat req2 = c"
  proof -
    have "unat (if req mod 100 > 0 then 1 else 0 :: uint256) = (if n mod 100 > 0 then 1 else 0)"
      using m0 by simp
    moreover have "n div 100 + (if n mod 100 > 0 then 1 else 0) < 2 ^ LENGTH(256)"
      using cb by (simp add: c_def)
    ultimately show ?thesis
      unfolding req2_def c_def
      using d unat_add_lem[of "req div 100" "if req mod 100 > 0 then 1 else 0"]
      by simp
  qed
  have req3: "unat req3 = min 100 (max 1 c)"
    using req2 by (auto simp add: req3_def word_less_nat_alt)
  have "(ucast req3 :: uint8) = of_nat (unat req3)"
    by simp
  then have "(ucast req3 :: uint8) = of_nat (min 100 (max 1 (nat \<lceil>real n / 100\<rceil>)))"
    using req3 by (simp add: nat_ceiling_div100 c_def)
  moreover have "getAbsNumberOfRequiredSigners base perc = Inr (ucast req3)"
    using assms by (simp add: getAbsNumberOfRequiredSigners_def Let_def req3_def req2_def req_def
        MAX_NUM_SIGNERS_def)
  ultimately show ?thesis by (simp add: n_def)
qed

theorem getAbsNumberOfRequiredSigners_clamped_ceiling_witness:
  "unat (3 :: uint256) * unat (50 :: uint8) < 2 ^ 256
   \<and> getAbsNumberOfRequiredSigners 3 50 = Inr 2"
proof -
  have h: "unat (3 :: uint256) * unat (50 :: uint8) < 2 ^ 256" by simp
  have "nat \<lceil>real (unat (3 :: uint256) * unat (50 :: uint8)) / 100\<rceil> = 2" by simp
  then show ?thesis
    using h getAbsNumberOfRequiredSigners_clamped_ceiling[OF h] by simp
qed

text \<open>
  C10. The third check of \<^verbatim>\<open>onlyValidApprovals\<close> never fails and the modifier does not
  look at the assignment array at all; and when the assignment array is shorter than the
  signer array, \<^verbatim>\<open>_requireRuleFulfillment\<close> gives the result it gives without the
  trailing signers, which are assigned to no atom and counted toward no quota. The
  witness is an approval with two signatures and one assignment entry that
  \<^verbatim>\<open>grantRole\<close> and \<^verbatim>\<open>revokeRole\<close> accept, the second signer holding no role.
\<close>

theorem assignment_length_is_never_checked:
  "onlyValidApprovals env approval \<noteq> Inl InvalidArguments
   \<and> onlyValidApprovals env (approval\<lparr>assignment := asg\<rparr>) = onlyValidApprovals env approval
   \<and> (length asg \<le> length signers \<longrightarrow>
        requireRuleFulfillment st nominee signers atms asg =
        requireRuleFulfillment st nominee (take (length asg) signers) atms asg)"
proof -
  have "onlyValidApprovals env approval \<noteq> Inl InvalidArguments"
    using isValidBaseBlock_loop_error[of env "baseBlockHash approval"]
    by (auto simp add: onlyValidApprovals_def isValidBaseBlock_def split: sum.splits)
  moreover have "onlyValidApprovals env (approval\<lparr>assignment := asg\<rparr>)
                   = onlyValidApprovals env approval"
    by (simp add: onlyValidApprovals_def)
  moreover have "length asg \<le> length signers \<longrightarrow>
        requireRuleFulfillment st nominee signers atms asg =
        requireRuleFulfillment st nominee (take (length asg) signers) atms asg"
    using countSigners_take[of 0 asg signers st nominee atms]
    by (simp add: requireRuleFulfillment_def)
  ultimately show ?thesis by blast
qed

theorem assignment_length_is_never_checked_witness:
  "length (assignment demo_grant_approval) < length (sig demo_grant_approval)
   \<and> requireRuleFulfillment demo_grant_chart 0x60 [0x51, 0x52] (atoms demo_grant_approval) [0]
       = requireRuleFulfillment demo_grant_chart 0x60 (take (length [0 :: uint8]) [0x51, 0x52])
           (atoms demo_grant_approval) [0]
   \<and> user2Roles demo_grant_chart 0x52 = 0
   \<and> (case grantRole demo_env demo_grant_chart demo_grant_approval 0x60 0xB of
         Inl e \<Rightarrow> False | Inr st \<Rightarrow> user2Roles st 0x60 = 2 \<and> roleIdToNOAssignments st 0xB = 2)
   \<and> (case revokeRole demo_env demo_grant_chart demo_grant_approval 0x61 0xB of
         Inl e \<Rightarrow> False | Inr st \<Rightarrow> user2Roles st 0x61 = 0 \<and> roleIdToNOAssignments st 0xB = 0)"
proof -
  have h: "length [0 :: uint8] \<le> length [0x51 :: address, 0x52]" by simp
  have g: "case grantRole demo_env demo_grant_chart demo_grant_approval 0x60 0xB of
         Inl e \<Rightarrow> False | Inr st \<Rightarrow> user2Roles st 0x60 = 2 \<and> roleIdToNOAssignments st 0xB = 2"
    by (simp add: grantRole_def onlyValidApprovals_def isValidBaseBlock_def LOOK_BACK_LENGTH_def
        MAX_NUM_SIGNERS_def requireValidRequest_def demo_grant_chart_def
        demo_grant_rule_def[symmetric] demo_grant_approval_simps eval_simps)
  have r: "case revokeRole demo_env demo_grant_chart demo_grant_approval 0x61 0xB of
         Inl e \<Rightarrow> False | Inr st \<Rightarrow> user2Roles st 0x61 = 0 \<and> roleIdToNOAssignments st 0xB = 0"
    by (simp add: revokeRole_def onlyValidApprovals_def isValidBaseBlock_def LOOK_BACK_LENGTH_def
        MAX_NUM_SIGNERS_def requireValidRequest_def demo_grant_chart_def
        demo_revoke_rule_def[symmetric] demo_grant_approval_simps eval_simps)
  from assignment_length_is_never_checked[of demo_env demo_grant_approval "[0]"
        "[0x51, 0x52]" demo_grant_chart "0x60" "atoms demo_grant_approval"] h
  show ?thesis using g r by (simp add: demo_grant_approval_simps demo_grant_chart_def)
qed


end
